theory Spec2Isabelle
  imports Main
begin

section \<open>Values of a frame cell\<close>

text \<open>
  The pipeline reads every partner file with \<^verbatim>\<open>dtype=str\<close>, so a cell of a frame is a
  Python string or a null. Three nulls occur in \<^verbatim>\<open>eligibility_pipeline.py\<close>:
  \<^verbatim>\<open>numpy.nan\<close> (an empty field of the file, an unparsed date after \<^verbatim>\<open>strftime\<close>),
  \<^verbatim>\<open>pandas.NA\<close> (written by \<^verbatim>\<open>df[col] = pd.NA\<close> and by \<^verbatim>\<open>replace(..., pd.NA)\<close>) and
  \<^verbatim>\<open>None\<close> (returned by \<^verbatim>\<open>format_phone\<close>). \<^verbatim>\<open>pd.isna\<close> holds of all three;
  \<^verbatim>\<open>astype(str)\<close> and \<^verbatim>\<open>str\<close> tell them apart: on a column of Python objects,
  as pandas 1.x and 2.x hold strings, \<^verbatim>\<open>astype(str)\<close> writes each null as its text,
  which is what \<^verbatim>\<open>replace("Nan", pd.NA)\<close> on line 55 relies on.

  Strings are sequences of ASCII characters: the character classes and case
  conversions below are Python's on ASCII. On other characters Python's
  \<^verbatim>\<open>str.title()\<close> and \<^verbatim>\<open>str.lower()\<close> differ from them (they can change the
  length of a string), so what is proved of the shape of a title-cased or
  lower-cased text is stated for ASCII strings.
\<close>

datatype cell = Str string | NaN | NA | PyNone

fun isna :: "cell \<Rightarrow> bool" where
  "isna (Str s) = False"
| "isna NaN = True"
| "isna NA = True"
| "isna PyNone = True"

text \<open>\<^verbatim>\<open>str(x)\<close>, which is also what \<^verbatim>\<open>Series.astype(str)\<close> does to each element.\<close>

fun py_str :: "cell \<Rightarrow> string" where
  "py_str (Str s) = s"
| "py_str NaN = ''nan''"
| "py_str NA = ''<NA>''"
| "py_str PyNone = ''None''"

section \<open>Python string operations\<close>

definition ascii_uppercase :: string where
  "ascii_uppercase = ''ABCDEFGHIJKLMNOPQRSTUVWXYZ''"

definition ascii_lowercase :: string where
  "ascii_lowercase = ''abcdefghijklmnopqrstuvwxyz''"

definition is_upper :: "char \<Rightarrow> bool" where
  "is_upper c = (c \<in> set ascii_uppercase)"

definition is_lower :: "char \<Rightarrow> bool" where
  "is_lower c = (c \<in> set ascii_lowercase)"

definition is_cased :: "char \<Rightarrow> bool" where
  "is_cased c = (is_upper c \<or> is_lower c)"

text \<open>The regular expression class \<^verbatim>\<open>\d\<close>; \<^verbatim>\<open>\D\<close> is its complement.\<close>

definition is_digit :: "char \<Rightarrow> bool" where
  "is_digit c = (c \<in> set ''0123456789'')"

text \<open>
  The characters \<^verbatim>\<open>str.strip()\<close> removes: tab, line feed, vertical tab, form feed,
  carriage return, the four separators 0x1C..0x1F and the space.
\<close>

definition is_space :: "char \<Rightarrow> bool" where
  "is_space c = (c \<in> set [CHR 0x09, CHR 0x0A, CHR 0x0B, CHR 0x0C, CHR 0x0D,
                            CHR 0x1C, CHR 0x1D, CHR 0x1E, CHR 0x1F, CHR 0x20])"

text \<open>
  The characters on which the definitions of this section are Python's: those with a
  code below 128.
\<close>

definition is_ascii :: "char \<Rightarrow> bool" where
  "is_ascii c = ((of_char c :: nat) < 128)"

definition to_lower :: "char \<Rightarrow> char" where
  "to_lower c = (case map_of (zip ascii_uppercase ascii_lowercase) c of
                   Some l \<Rightarrow> l | None \<Rightarrow> c)"

definition to_upper :: "char \<Rightarrow> char" where
  "to_upper c = (case map_of (zip ascii_lowercase ascii_uppercase) c of
                   Some u \<Rightarrow> u | None \<Rightarrow> c)"

text \<open>\<^verbatim>\<open>str.strip()\<close>\<close>

definition strip :: "string \<Rightarrow> string" where
  "strip s = rev (dropWhile is_space (rev (dropWhile is_space s)))"

text \<open>\<^verbatim>\<open>str.lower()\<close>\<close>

definition lower :: "string \<Rightarrow> string" where
  "lower s = map to_lower s"

text \<open>
  \<^verbatim>\<open>str.title()\<close>: a character that follows a cased character is lower-cased, any
  other character is upper-cased; the flag is whether the previous character was
  cased.
\<close>

fun title_from :: "bool \<Rightarrow> string \<Rightarrow> string" where
  "title_from previous_is_cased [] = []"
| "title_from previous_is_cased (c # cs) =
     (if previous_is_cased then to_lower c else to_upper c) # title_from (is_cased c) cs"

definition title :: "string \<Rightarrow> string" where
  "title s = title_from False s"

section \<open>format_phone\<close>

text \<open>
  \<^verbatim>\<open>
  def format_phone(phone):
      if pd.isna(phone):
          return None
      phone = str(phone)
      digits = re.sub(r"\D", "", phone)
      if len(digits) == 10:
          return f"{digits[:3]}-{digits[3:6]}-{digits[6:]}"
      return None
  \<close>
\<close>

definition format_phone :: "cell \<Rightarrow> cell" where
  "format_phone phone =
     (if isna phone then PyNone
      else
        (let digits = filter is_digit (py_str phone) in
         if length digits = 10
         then Str (take 3 digits @ ''-'' @ take 3 (drop 3 digits) @ ''-'' @ drop 6 digits)
         else PyNone))"

section \<open>Frames\<close>

text \<open>
  A frame has its column labels, in order, and its rows; a row carries its index
  label and its cells, each under its column label, in column order. Boolean
  selection keeps the index labels of the rows it keeps, which is how a row of an
  output is traced back to its input row.
\<close>

type_synonym row = "(string \<times> cell) list"

record dataframe =
  columns :: "string list"
  rows :: "(nat \<times> row) list"

text \<open>
  The cell of a row under a label (the first one, should the label be repeated); a
  row with no such label reads as NaN there, as a frame built from ragged records does.
\<close>

definition cell_at :: "row \<Rightarrow> string \<Rightarrow> cell" where
  "cell_at r c = (case map_of r c of Some v \<Rightarrow> v | None \<Rightarrow> NaN)"

text \<open>
  Writing a cell: every cell under the label is overwritten; a label the row does
  not have is appended.
\<close>

definition set_cell :: "string \<Rightarrow> cell \<Rightarrow> row \<Rightarrow> row" where
  "set_cell c v r =
     (if c \<in> set (map fst r) then map (\<lambda>(k, x). (k, if k = c then v else x)) r
      else r @ [(c, v)])"

definition set_label :: "string \<Rightarrow> string list \<Rightarrow> string list" where
  "set_label c cs = (if c \<in> set cs then cs else cs @ [c])"

text \<open>\<^verbatim>\<open>df[c] = v\<close> for a scalar \<open>v\<close>, also \<^verbatim>\<open>df.assign(c=v)\<close>.\<close>

definition assign_column :: "string \<Rightarrow> cell \<Rightarrow> dataframe \<Rightarrow> dataframe" where
  "assign_column c v df =
     \<lparr>columns = set_label c (columns df),
      rows = map (\<lambda>(i, r). (i, set_cell c v r)) (rows df)\<rparr>"

text \<open>\<^verbatim>\<open>df[c] = f(df[c])\<close> for an elementwise \<open>f\<close>.\<close>

definition map_column :: "string \<Rightarrow> (cell \<Rightarrow> cell) \<Rightarrow> dataframe \<Rightarrow> dataframe" where
  "map_column c f df =
     \<lparr>columns = set_label c (columns df),
      rows = map (\<lambda>(i, r). (i, set_cell c (f (cell_at r c)) r)) (rows df)\<rparr>"

text \<open>\<^verbatim>\<open>df[mask]\<close> for a mask computed row by row.\<close>

definition select_rows :: "(row \<Rightarrow> bool) \<Rightarrow> dataframe \<Rightarrow> dataframe" where
  "select_rows m df = \<lparr>columns = columns df, rows = filter (\<lambda>(i, r). m r) (rows df)\<rparr>"

text \<open>\<^verbatim>\<open>df.loc[:, cols]\<close>\<close>

definition loc_row :: "string list \<Rightarrow> row \<Rightarrow> row" where
  "loc_row cs r = concat (map (\<lambda>c. filter (\<lambda>(k, v). k = c) r) cs)"

definition loc_columns :: "string list \<Rightarrow> dataframe \<Rightarrow> dataframe" where
  "loc_columns cs df =
     \<lparr>columns = concat (map (\<lambda>c. filter (\<lambda>k. k = c) (columns df)) cs),
      rows = map (\<lambda>(i, r). (i, loc_row cs r)) (rows df)\<rparr>"

text \<open>\<^verbatim>\<open>df.empty\<close>: some axis has length zero.\<close>

definition df_empty :: "dataframe \<Rightarrow> bool" where
  "df_empty df = (rows df = [] \<or> columns df = [])"

text \<open>\<^verbatim>\<open>df.rename(columns=mapping)\<close>; the mapping is a dict, its keys are distinct.\<close>

definition rename_label :: "(string \<times> string) list \<Rightarrow> string \<Rightarrow> string" where
  "rename_label m c = (case map_of m c of Some n \<Rightarrow> n | None \<Rightarrow> c)"

definition rename_columns :: "(string \<times> string) list \<Rightarrow> dataframe \<Rightarrow> dataframe" where
  "rename_columns m df =
     \<lparr>columns = map (rename_label m) (columns df),
      rows = map (\<lambda>(i, r). (i, map (\<lambda>(k, v). (rename_label m k, v)) r)) (rows df)\<rparr>"

text \<open>
  \<^verbatim>\<open>pd.concat(frames, ignore_index=True)\<close>: the labels of all frames in order of first
  appearance, every row read under those labels (NaN where its frame has none), the
  index renumbered from 0.
\<close>

definition pd_concat :: "dataframe list \<Rightarrow> dataframe" where
  "pd_concat dfs =
     (let cs = rev (remdups (rev (concat (map columns dfs))))
      in \<lparr>columns = cs,
          rows = map (\<lambda>(j, (i, r)). (j, map (\<lambda>c. (c, cell_at r c)) cs))
                     (enumerate 0 (concat (map rows dfs)))\<rparr>)"

section \<open>Dates\<close>

text \<open>
  \<^verbatim>\<open>pd.to_datetime(column, errors="coerce")\<close> is the library's parser and enters as a
  parameter: given the column and a position in it, the date read from the text
  there, or nothing (NaT). It sees the whole column, as the library infers a
  notation from it. What it returns is taken to be a column of dates and NaT, which
  it is unless the texts carry different UTC offsets. Nulls are NaT whatever the
  parser; \<^verbatim>\<open>.dt.strftime("%Y-%m-%d")\<close> turns a date into text and NaT into NaN.
\<close>

record timestamp =
  year :: nat
  month :: nat
  day :: nat

type_synonym date_reader = "cell list \<Rightarrow> nat \<Rightarrow> timestamp option"

definition digit_char :: "nat \<Rightarrow> char" where
  "digit_char n = ''0123456789'' ! (n mod 10)"

definition strftime :: "timestamp \<Rightarrow> string" where
  "strftime t =
     [digit_char (year t div 1000), digit_char (year t div 100),
      digit_char (year t div 10), digit_char (year t), CHR ''-'',
      digit_char (month t div 10), digit_char (month t), CHR ''-'',
      digit_char (day t div 10), digit_char (day t)]"

definition dob_value :: "date_reader \<Rightarrow> cell list \<Rightarrow> nat \<Rightarrow> cell \<Rightarrow> cell" where
  "dob_value to_datetime col j v =
     (if isna v then NaN
      else case to_datetime col j of None \<Rightarrow> NaN | Some t \<Rightarrow> Str (strftime t))"

definition parse_dob_column :: "date_reader \<Rightarrow> dataframe \<Rightarrow> dataframe" where
  "parse_dob_column to_datetime df =
     (let col = map (\<lambda>(i, r). cell_at r ''dob'') (rows df)
      in \<lparr>columns = set_label ''dob'' (columns df),
          rows = map (\<lambda>(j, (i, r)).
                        (i, set_cell ''dob'' (dob_value to_datetime col j (cell_at r ''dob'')) r))
                     (enumerate 0 (rows df))\<rparr>)"

section \<open>standardize_dataframe\<close>

record partner_conf =
  partner_code :: string
  column_mapping :: "(string \<times> string) list"
  file_path :: string
  delimiter :: "string option"

datatype exn = TypeError | OSError | ParserError | LabelError

definition expected_columns :: "string list" where
  "expected_columns =
     [''external_id'', ''first_name'', ''last_name'', ''dob'', ''email'', ''phone'']"

definition cols :: "string list" where
  "cols = [''external_id'', ''first_name'', ''last_name'', ''dob'', ''email'', ''phone'',
           ''partner_code'']"

text \<open>Lines 35 to 40: the renaming, then a column of \<^verbatim>\<open>pd.NA\<close> for every expected
  label the frame lacks.\<close>

definition ensure_column :: "dataframe \<Rightarrow> string \<Rightarrow> dataframe" where
  "ensure_column df col = (if col \<notin> set (columns df) then assign_column col NA df else df)"

definition renamed :: "partner_conf \<Rightarrow> dataframe \<Rightarrow> dataframe" where
  "renamed conf df =
     foldl ensure_column (rename_columns (column_mapping conf) df) expected_columns"

text \<open>Line 44:
  \<^verbatim>\<open>df["external_id"].isna() | df["external_id"].astype(str).str.strip().eq("")\<close>\<close>

definition mask_missing_id :: "row \<Rightarrow> bool" where
  "mask_missing_id r =
     (isna (cell_at r ''external_id'')
      \<or> strip (py_str (cell_at r ''external_id'')) = [])"

text \<open>Lines 55 and 56: \<^verbatim>\<open>.astype(str).str.title().replace("Nan", pd.NA)\<close>\<close>

definition title_name :: "cell \<Rightarrow> cell" where
  "title_name v = (let s = title (py_str v) in if s = ''Nan'' then NA else Str s)"

text \<open>Line 57: \<^verbatim>\<open>.astype(str).str.lower().replace("nan", pd.NA)\<close>\<close>

definition lower_email :: "cell \<Rightarrow> cell" where
  "lower_email v = (let s = lower (py_str v) in if s = ''nan'' then NA else Str s)"

text \<open>
  Selecting one of the six expected labels gives a series only when the label occurs
  once; when it is repeated the selection is a frame. For external_id, first_name,
  last_name and email the accessor \<^verbatim>\<open>.str\<close> then raises, and for dob
  \<^verbatim>\<open>pd.to_datetime\<close> raises, whatever the rows are. For phone,
  \<^verbatim>\<open>apply(format_phone)\<close> raises when there is a kept row; when there is none it
  gives the empty frame back and the function returns, the standardized frame having
  every phone label. After line 40 each expected label occurs at least once.
\<close>

definition raises_on_labels :: "dataframe \<Rightarrow> bool" where
  "raises_on_labels df =
     ((\<exists>col \<in> set [''external_id'', ''first_name'', ''last_name'', ''email'', ''dob''].
          count_list (columns df) col \<noteq> 1)
      \<or> (count_list (columns df) ''phone'' \<noteq> 1
          \<and> rows (select_rows (\<lambda>r. \<not> mask_missing_id r) df) \<noteq> []))"

text \<open>The warning that is logged for dropped rows is not part of the result.\<close>

definition standardize_dataframe ::
  "date_reader \<Rightarrow> dataframe \<Rightarrow> partner_conf \<Rightarrow> exn + dataframe \<times> dataframe" where
  "standardize_dataframe to_datetime df0 conf =
     (let df = renamed conf df0 in
      if raises_on_labels df then Inl LabelError
      else
        let dropped_rows = select_rows mask_missing_id df;
            kept = select_rows (\<lambda>r. \<not> mask_missing_id r) df;
            kept = map_column ''first_name'' title_name kept;
            kept = map_column ''last_name'' title_name kept;
            kept = map_column ''email'' lower_email kept;
            kept = parse_dob_column to_datetime kept;
            kept = map_column ''phone'' format_phone kept;
            kept = assign_column ''partner_code'' (Str (partner_code conf)) kept;
            standardized = loc_columns cols kept;
            dropped_rows =
              (if \<not> df_empty dropped_rows
               then assign_column ''partner_code'' (Str (partner_code conf)) dropped_rows
               else dropped_rows)
        in Inr (standardized, dropped_rows))"

section \<open>ingest_partner and main\<close>

text \<open>
  \<^verbatim>\<open>pd.read_csv\<close> is the reading collaborator: given the path, the delimiter and
  whether \<^verbatim>\<open>on_bad_lines="skip"\<close> is passed, a frame or the exception raised. The
  second read happens inside the handler of \<^verbatim>\<open>TypeError\<close>, where the clause
  \<^verbatim>\<open>except Exception\<close> of the same statement no longer applies. Log messages,
  among them the warning about a missing identifier column, are not part of the result.
\<close>

type_synonym reader = "string \<Rightarrow> string \<Rightarrow> bool \<Rightarrow> exn + dataframe"

definition empty_frame :: dataframe where
  "empty_frame = \<lparr>columns = cols, rows = []\<rparr>"

definition ingest_partner ::
  "reader \<Rightarrow> date_reader \<Rightarrow> string \<Rightarrow> partner_conf \<Rightarrow> exn + dataframe \<times> dataframe" where
  "ingest_partner read_csv to_datetime partner_name conf =
     (let path = file_path conf;
          delim = (case delimiter conf of Some d \<Rightarrow> d | None \<Rightarrow> '','')
      in case read_csv path delim True of
           Inr df \<Rightarrow> standardize_dataframe to_datetime df conf
         | Inl TypeError \<Rightarrow>
             (case read_csv path delim False of
                Inr df \<Rightarrow> standardize_dataframe to_datetime df conf
              | Inl e \<Rightarrow> Inl e)
         | Inl e \<Rightarrow> Inr (empty_frame, empty_frame))"

text \<open>The loop of \<^verbatim>\<open>main\<close> over \<^verbatim>\<open>PARTNER_CONFIG.items()\<close>, with the two lists it
  appends to.\<close>

fun main_loop ::
  "reader \<Rightarrow> date_reader \<Rightarrow> (string \<times> partner_conf) list \<Rightarrow> dataframe list \<Rightarrow> dataframe list
   \<Rightarrow> exn + dataframe list \<times> dataframe list" where
  "main_loop read_csv to_datetime [] all_partners all_dropped = Inr (all_partners, all_dropped)"
| "main_loop read_csv to_datetime ((partner, conf) # rest) all_partners all_dropped =
     (case ingest_partner read_csv to_datetime partner conf of
        Inl e \<Rightarrow> Inl e
      | Inr (partner_std, partner_dropped) \<Rightarrow>
          main_loop read_csv to_datetime rest
            (if \<not> df_empty partner_std then all_partners @ [partner_std] else all_partners)
            (if \<not> df_empty partner_dropped then all_dropped @ [partner_dropped]
             else all_dropped))"

text \<open>The result of \<open>main\<close> is the two frames it writes, \<^verbatim>\<open>unified_eligibility.csv\<close>
  and \<^verbatim>\<open>dropped_rows.csv\<close>.\<close>

definition main :: "reader \<Rightarrow> date_reader \<Rightarrow> (string \<times> partner_conf) list
                    \<Rightarrow> exn + dataframe \<times> dataframe" where
  "main read_csv to_datetime PARTNER_CONFIG =
     (case main_loop read_csv to_datetime PARTNER_CONFIG [] [] of
        Inl e \<Rightarrow> Inl e
      | Inr (all_partners, all_dropped) \<Rightarrow>
          Inr (if all_partners \<noteq> [] then pd_concat all_partners else empty_frame,
               if all_dropped \<noteq> [] then pd_concat all_dropped else empty_frame))"

section \<open>Row-wise views\<close>

text \<open>
  The rows that lines 47 to 49 keep and drop, and what lines 55 to 66 make of one
  kept row: the results below are stated on them.
\<close>

definition kept_rows :: "partner_conf \<Rightarrow> dataframe \<Rightarrow> (nat \<times> row) list" where
  "kept_rows conf df = filter (\<lambda>(i, r). \<not> mask_missing_id r) (rows (renamed conf df))"

definition missing_rows :: "partner_conf \<Rightarrow> dataframe \<Rightarrow> (nat \<times> row) list" where
  "missing_rows conf df = filter (\<lambda>(i, r). mask_missing_id r) (rows (renamed conf df))"

definition std_row :: "date_reader \<Rightarrow> string \<Rightarrow> cell list \<Rightarrow> nat \<Rightarrow> row \<Rightarrow> row" where
  "std_row to_datetime code col j r =
     (let r = set_cell ''first_name'' (title_name (cell_at r ''first_name'')) r;
          r = set_cell ''last_name'' (title_name (cell_at r ''last_name'')) r;
          r = set_cell ''email'' (lower_email (cell_at r ''email'')) r;
          r = set_cell ''dob'' (dob_value to_datetime col j (cell_at r ''dob'')) r;
          r = set_cell ''phone'' (format_phone (cell_at r ''phone'')) r;
          r = set_cell ''partner_code'' (Str code) r
      in loc_row cols r)"

text \<open>The column of \<open>dob\<close> cells of a list of rows.\<close>

definition dob_column :: "(nat \<times> row) list \<Rightarrow> cell list" where
  "dob_column rs = map (\<lambda>(i, r). cell_at r ''dob'') rs"

text \<open>
  The shape \<^verbatim>\<open>YYYY-MM-DD\<close>, the number a text of digits writes in decimal, and
  the dates a pandas timestamp of nanosecond resolution can hold (by their years).
\<close>

definition is_iso_date :: "string \<Rightarrow> bool" where
  "is_iso_date s =
     (length s = 10 \<and> list_all is_digit (take 4 s) \<and> s ! 4 = CHR ''-''
      \<and> list_all is_digit (take 2 (drop 5 s)) \<and> s ! 7 = CHR ''-''
      \<and> list_all is_digit (drop 8 s))"

definition digit_value :: "char \<Rightarrow> nat" where
  "digit_value c = (of_char c :: nat) - 48"

definition decimal :: "string \<Rightarrow> nat" where
  "decimal s = foldl (\<lambda>n c. 10 * n + digit_value c) 0 s"

definition in_timestamp_range :: "timestamp \<Rightarrow> bool" where
  "in_timestamp_range t =
     (1677 \<le> year t \<and> year t \<le> 2262 \<and> 1 \<le> month t \<and> month t \<le> 12
      \<and> 1 \<le> day t \<and> day t \<le> 31)"

text \<open>The row has the label, and every cell it has under that label is \<open>v\<close>.\<close>

definition all_cells :: "string \<Rightarrow> cell \<Rightarrow> row \<Rightarrow> bool" where
  "all_cells c v r = (c \<in> set (map fst r) \<and> (\<forall>(k, x) \<in> set r. k = c \<longrightarrow> x = v))"

section \<open>Example inputs\<close>

text \<open>
  The date parser on the dob columns of the examples: what
  \<^verbatim>\<open>pd.to_datetime(column, errors="coerce")\<close> of pandas 2.x reads in them, position
  by position. Since pandas 2.0 the notation is inferred from the first text of the
  column, and a text in another notation is NaT. Only the three columns below are in
  the table; \<open>reads_nothing\<close> serves where the dob column holds nulls only.
\<close>

definition reads_nothing :: date_reader where
  "reads_nothing col j = None"

definition example_dates :: date_reader where
  "example_dates col j =
     (if j = 0 \<and> (col = [Str ''01/15/2020'', Str ''not-a-date'']
                   \<or> col = [Str ''2020-01-15'', NaN]
                   \<or> col = [Str ''2020-01-15'', Str ''01/15/2020''])
      then Some \<lparr>year = 2020, month = 1, day = 15\<rparr> else None)"

text \<open>
  A partner file with its own column names: the first row has a padded identifier,
  the second a blank one, the third an unreadable date and an eleven-digit phone.
  Then the two frames \<open>standardize_dataframe\<close> makes of it, and the frame a second
  run makes of the accepted records.
\<close>

definition conf_acme :: partner_conf where
  "conf_acme =
     \<lparr>partner_code = ''ACME'',
      column_mapping = [(''id'', ''external_id''), (''fname'', ''first_name''),
                        (''lname'', ''last_name''), (''birth'', ''dob''),
                        (''mail'', ''email''), (''tel'', ''phone'')],
      file_path = ''acme.csv'', delimiter = None\<rparr>"

definition raw_acme :: dataframe where
  "raw_acme =
     \<lparr>columns = [''id'', ''fname'', ''lname'', ''birth'', ''mail'', ''tel'', ''note''],
      rows =
        [(0, [(''id'', Str '' A1 ''), (''fname'', Str ''joHN''), (''lname'', Str ''NAN''),
              (''birth'', Str ''01/15/2020''), (''mail'', Str ''NaN''),
              (''tel'', Str ''(555) 123-4567''), (''note'', Str ''x'')]),
         (1, [(''id'', Str ''  ''), (''fname'', Str ''mary''), (''lname'', Str ''major''),
              (''birth'', Str ''2020-01-15''), (''mail'', Str ''M@X.ORG''),
              (''tel'', Str ''555 123 4567''), (''note'', NaN)]),
         (2, [(''id'', Str ''B2''), (''fname'', NaN), (''lname'', Str ''lee''),
              (''birth'', Str ''not-a-date''), (''mail'', Str ''B@X.ORG''),
              (''tel'', Str ''+1-555-123-4567''), (''note'', NaN)])]\<rparr>"

definition std_acme :: dataframe where
  "std_acme =
     \<lparr>columns = cols,
      rows =
        [(0, [(''external_id'', Str '' A1 ''), (''first_name'', Str ''John''),
              (''last_name'', NA), (''dob'', Str ''2020-01-15''), (''email'', NA),
              (''phone'', Str ''555-123-4567''), (''partner_code'', Str ''ACME'')]),
         (2, [(''external_id'', Str ''B2''), (''first_name'', NA),
              (''last_name'', Str ''Lee''), (''dob'', NaN), (''email'', Str ''b@x.org''),
              (''phone'', PyNone), (''partner_code'', Str ''ACME'')])]\<rparr>"

definition dropped_acme :: dataframe where
  "dropped_acme =
     \<lparr>columns = [''external_id'', ''first_name'', ''last_name'', ''dob'', ''email'',
                 ''phone'', ''note'', ''partner_code''],
      rows =
        [(1, [(''external_id'', Str ''  ''), (''first_name'', Str ''mary''),
              (''last_name'', Str ''major''), (''dob'', Str ''2020-01-15''),
              (''email'', Str ''M@X.ORG''), (''phone'', Str ''555 123 4567''),
              (''note'', NaN), (''partner_code'', Str ''ACME'')])]\<rparr>"

definition restd_acme :: dataframe where
  "restd_acme =
     \<lparr>columns = cols,
      rows =
        [(0, [(''external_id'', Str '' A1 ''), (''first_name'', Str ''John''),
              (''last_name'', Str ''<Na>''), (''dob'', Str ''2020-01-15''),
              (''email'', Str ''<na>''), (''phone'', Str ''555-123-4567''),
              (''partner_code'', Str ''ACME'')]),
         (2, [(''external_id'', Str ''B2''), (''first_name'', Str ''<Na>''),
              (''last_name'', Str ''Lee''), (''dob'', NaN), (''email'', Str ''b@x.org''),
              (''phone'', PyNone), (''partner_code'', Str ''ACME'')])]\<rparr>"

text \<open>
  A file that already uses the expected labels, with padded, hyphenated, blank and
  empty names, and its accepted records.
\<close>

definition conf_direct :: partner_conf where
  "conf_direct =
     \<lparr>partner_code = ''P1'', column_mapping = [], file_path = ''p1.csv'',
      delimiter = Some '';''\<rparr>"

definition raw_names :: dataframe where
  "raw_names =
     \<lparr>columns = [''external_id'', ''first_name'', ''last_name'', ''dob'', ''email'', ''phone''],
      rows =
        [(0, [(''external_id'', Str ''A1''), (''first_name'', Str '' joHN ''),
              (''last_name'', Str ''  ''), (''dob'', NaN), (''email'', Str ''J@X.ORG''),
              (''phone'', NaN)]),
         (1, [(''external_id'', Str ''A2''), (''first_name'', Str ''mary-ann''),
              (''last_name'', Str ''''), (''dob'', NaN), (''email'', Str ''M@X.ORG''),
              (''phone'', NaN)])]\<rparr>"

definition std_names :: dataframe where
  "std_names =
     \<lparr>columns = cols,
      rows =
        [(0, [(''external_id'', Str ''A1''), (''first_name'', Str '' John ''),
              (''last_name'', Str ''  ''), (''dob'', NaN), (''email'', Str ''j@x.org''),
              (''phone'', PyNone), (''partner_code'', Str ''P1'')]),
         (1, [(''external_id'', Str ''A2''), (''first_name'', Str ''Mary-Ann''),
              (''last_name'', Str ''''), (''dob'', NaN), (''email'', Str ''m@x.org''),
              (''phone'', PyNone), (''partner_code'', Str ''P1'')])]\<rparr>"

text \<open>
  A file whose dob column holds the same date in two notations, the ISO one first,
  and its accepted records.
\<close>

definition raw_mixed :: dataframe where
  "raw_mixed =
     \<lparr>columns = [''external_id'', ''first_name'', ''last_name'', ''dob'', ''email'', ''phone''],
      rows =
        [(0, [(''external_id'', Str ''A1''), (''first_name'', Str ''ann''),
              (''last_name'', Str ''lee''), (''dob'', Str ''2020-01-15''),
              (''email'', Str ''a@x.org''), (''phone'', NaN)]),
         (1, [(''external_id'', Str ''A2''), (''first_name'', Str ''bob''),
              (''last_name'', Str ''ray''), (''dob'', Str ''01/15/2020''),
              (''email'', Str ''b@x.org''), (''phone'', NaN)])]\<rparr>"

definition std_mixed :: dataframe where
  "std_mixed =
     \<lparr>columns = cols,
      rows =
        [(0, [(''external_id'', Str ''A1''), (''first_name'', Str ''Ann''),
              (''last_name'', Str ''Lee''), (''dob'', Str ''2020-01-15''),
              (''email'', Str ''a@x.org''), (''phone'', PyNone),
              (''partner_code'', Str ''P1'')]),
         (1, [(''external_id'', Str ''A2''), (''first_name'', Str ''Bob''),
              (''last_name'', Str ''Ray''), (''dob'', NaN),
              (''email'', Str ''b@x.org''), (''phone'', PyNone),
              (''partner_code'', Str ''P1'')])]\<rparr>"

text \<open>A file in which every name and email is present, and its accepted records.\<close>

definition raw_full :: dataframe where
  "raw_full =
     \<lparr>columns = [''id'', ''fname'', ''lname'', ''birth'', ''mail'', ''tel''],
      rows =
        [(0, [(''id'', Str ''A1''), (''fname'', Str ''joHN''), (''lname'', Str ''smith''),
              (''birth'', Str ''01/15/2020''), (''mail'', Str ''J@X.ORG''),
              (''tel'', Str ''(555) 123-4567'')]),
         (1, [(''id'', Str '' B2 ''), (''fname'', Str ''mary-ann''), (''lname'', Str ''lee''),
              (''birth'', Str ''not-a-date''), (''mail'', Str ''M@X.ORG''),
              (''tel'', Str ''12345'')])]\<rparr>"

definition std_full :: dataframe where
  "std_full =
     \<lparr>columns = cols,
      rows =
        [(0, [(''external_id'', Str ''A1''), (''first_name'', Str ''John''),
              (''last_name'', Str ''Smith''), (''dob'', Str ''2020-01-15''),
              (''email'', Str ''j@x.org''), (''phone'', Str ''555-123-4567''),
              (''partner_code'', Str ''ACME'')]),
         (1, [(''external_id'', Str '' B2 ''), (''first_name'', Str ''Mary-Ann''),
              (''last_name'', Str ''Lee''), (''dob'', NaN), (''email'', Str ''m@x.org''),
              (''phone'', PyNone), (''partner_code'', Str ''ACME'')])]\<rparr>"

text \<open>
  Two readers. The first is a pandas older than 1.3: \<^verbatim>\<open>on_bad_lines\<close> is refused with
  a TypeError, \<^verbatim>\<open>acme.csv\<close> is there and every other file is missing. The second
  accepts \<^verbatim>\<open>on_bad_lines\<close> and finds the same files.
\<close>

definition conf_gone :: partner_conf where
  "conf_gone =
     \<lparr>partner_code = ''GONE'', column_mapping = [(''id'', ''external_id'')],
      file_path = ''gone.csv'', delimiter = Some ''|''\<rparr>"

definition old_pandas_reader :: reader where
  "old_pandas_reader path delim on_bad_lines =
     (if on_bad_lines then Inl TypeError
      else if path = ''acme.csv'' then Inr raw_acme
      else Inl OSError)"

definition new_pandas_reader :: reader where
  "new_pandas_reader path delim on_bad_lines =
     (if path = ''acme.csv'' then Inr raw_acme else Inl OSError)"

text \<open>
  A file with two columns labelled \<open>phone\<close> and one row, whose identifier is the
  argument. \<^verbatim>\<open>kept["phone"]\<close> is then a frame, and \<^verbatim>\<open>apply(format_phone)\<close> raises on
  its columns unless the frame has no row.
\<close>

definition raw_two_phones :: "cell \<Rightarrow> dataframe" where
  "raw_two_phones ident =
     \<lparr>columns = [''external_id'', ''first_name'', ''last_name'', ''dob'', ''email'', ''phone'',
                 ''phone''],
      rows =
        [(0, [(''external_id'', ident), (''first_name'', Str ''ann''),
              (''last_name'', Str ''lee''), (''dob'', NaN), (''email'', Str ''A@X.ORG''),
              (''phone'', Str ''5551234567''), (''phone'', Str ''5551234568'')])]\<rparr>"

section \<open>Character and string facts\<close>

lemma is_digit_dash [simp]: "\<not> is_digit CHR ''-''"
  by (simp add: is_digit_def)

lemma split_ten: "take 3 d @ take 3 (drop 3 d) @ drop 6 d = d"
proof -
  have "take 3 (drop 3 d) @ drop 3 (drop 3 d) = drop 3 d"
    by (rule append_take_drop_id)
  moreover have "drop 3 (drop 3 d) = drop 6 d"
    by simp
  ultimately have "take 3 (drop 3 d) @ drop 6 d = drop 3 d"
    by simp
  then show ?thesis
    by simp
qed

lemma digits_of_formatted:
  assumes "\<forall>c \<in> set d. is_digit c"
  shows "filter is_digit (take 3 d @ ''-'' @ take 3 (drop 3 d) @ ''-'' @ drop 6 d) = d"
proof -
  have t: "filter is_digit (take 3 d) = take 3 d"
    using assms by (auto simp: filter_id_conv dest: in_set_takeD)
  have m: "filter is_digit (take 3 (drop 3 d)) = take 3 (drop 3 d)"
    using assms by (auto simp: filter_id_conv dest!: in_set_takeD in_set_dropD)
  have e: "filter is_digit (drop 6 d) = drop 6 d"
    using assms by (auto simp: filter_id_conv dest: in_set_dropD)
  have "filter is_digit (take 3 d @ ''-'' @ take 3 (drop 3 d) @ ''-'' @ drop 6 d)
        = take 3 d @ take 3 (drop 3 d) @ drop 6 d"
    by (simp add: t m e)
  then show ?thesis
    by (simp only: split_ten)
qed

lemma format_phone_idem: "format_phone (format_phone v) = format_phone v"
proof (cases "\<not> isna v \<and> length (filter is_digit (py_str v)) = 10")
  case False
  then have "format_phone v = PyNone"
    by (auto simp: format_phone_def Let_def)
  then show ?thesis
    by (simp add: format_phone_def)
next
  case True
  let ?d = "filter is_digit (py_str v)"
  let ?s = "take 3 ?d @ ''-'' @ take 3 (drop 3 ?d) @ ''-'' @ drop 6 ?d"
  from True have f: "format_phone v = Str ?s"
    by (simp add: format_phone_def Let_def)
  have d: "filter is_digit ?s = ?d"
    by (rule digits_of_formatted) simp
  have "format_phone (Str ?s) = Str ?s"
    unfolding format_phone_def Let_def py_str.simps d using True by simp
  with f show ?thesis
    by simp
qed

lemma is_digit_digit_char: "is_digit (digit_char n)"
  unfolding is_digit_def digit_char_def by (rule nth_mem) simp

lemma is_iso_date_strftime: "is_iso_date (strftime t)"
  by (simp add: is_iso_date_def strftime_def is_digit_digit_char)

lemma digit_values: "\<forall>k \<in> set [0..<10]. digit_value (''0123456789'' ! k) = k"
  by code_simp

lemma digit_value_digit_char: "digit_value (digit_char n) = n mod 10"
proof -
  have "n mod 10 \<in> set [0..<10]"
    by simp
  with digit_values show ?thesis
    unfolding digit_char_def by blast
qed

lemma four_digits:
  fixes y :: nat
  assumes "y < 10000"
  shows "10 * (10 * (10 * (y div 1000 mod 10) + y div 100 mod 10) + y div 10 mod 10) + y mod 10 = y"
proof -
  define a where "a = y div 10"
  define b where "b = a div 10"
  define c where "c = b div 10"
  have e100: "y div 100 = b"
    by (simp add: a_def b_def div_mult2_eq)
  have e1000: "y div 1000 = c"
    by (simp add: a_def b_def c_def div_mult2_eq)
  have "c < 10"
    using assms unfolding e1000 [symmetric] by simp
  then have cm: "c mod 10 = c"
    by simp
  have 1: "10 * c + b mod 10 = b"
    unfolding c_def by simp
  have 2: "10 * b + a mod 10 = a"
    unfolding b_def by simp
  have 3: "10 * a + y mod 10 = y"
    unfolding a_def by simp
  show ?thesis
    unfolding e100 e1000 cm a_def [symmetric] by (simp only: 1 2 3)
qed

lemma two_digits:
  fixes m :: nat
  assumes "m < 100"
  shows "10 * (m div 10 mod 10) + m mod 10 = m"
proof -
  have "m div 10 < 10"
    using assms by simp
  then have "m div 10 mod 10 = m div 10"
    by simp
  then show ?thesis
    by simp
qed

lemma decimal_four: "decimal [a, b, c, d]
    = 10 * (10 * (10 * digit_value a + digit_value b) + digit_value c) + digit_value d"
  by (simp add: decimal_def)

lemma decimal_two: "decimal [a, b] = 10 * digit_value a + digit_value b"
  by (simp add: decimal_def)

lemma decimal_strftime:
  assumes "in_timestamp_range t"
  shows "decimal (take 4 (strftime t)) = year t"
    and "decimal (take 2 (drop 5 (strftime t))) = month t"
    and "decimal (drop 8 (strftime t)) = day t"
proof -
  from assms have y: "year t < 10000" and m: "month t < 100" and d: "day t < 100"
    by (simp_all add: in_timestamp_range_def)
  have ty: "take 4 (strftime t) = [digit_char (year t div 1000), digit_char (year t div 100),
      digit_char (year t div 10), digit_char (year t)]"
    and tm: "take 2 (drop 5 (strftime t)) = [digit_char (month t div 10), digit_char (month t)]"
    and td: "drop 8 (strftime t) = [digit_char (day t div 10), digit_char (day t)]"
    by (simp_all add: strftime_def)
  show "decimal (take 4 (strftime t)) = year t"
    unfolding ty decimal_four digit_value_digit_char by (rule four_digits [OF y])
  show "decimal (take 2 (drop 5 (strftime t))) = month t"
    unfolding tm decimal_two digit_value_digit_char by (rule two_digits [OF m])
  show "decimal (drop 8 (strftime t)) = day t"
    unfolding td decimal_two digit_value_digit_char by (rule two_digits [OF d])
qed

lemma cases_disjoint: "set ascii_uppercase \<inter> set ascii_lowercase = {}"
  by code_simp

lemma to_lower_cases:
  "(is_upper c \<and> is_lower (to_lower c)) \<or> (\<not> is_upper c \<and> to_lower c = c)"
proof (cases "map_of (zip ascii_uppercase ascii_lowercase) c")
  case None
  moreover have "length ascii_uppercase = length ascii_lowercase"
    by (simp add: ascii_uppercase_def ascii_lowercase_def)
  ultimately have "c \<notin> set ascii_uppercase"
    by simp
  with None show ?thesis
    by (simp add: to_lower_def is_upper_def)
next
  case (Some l)
  then have "(c, l) \<in> set (zip ascii_uppercase ascii_lowercase)"
    by (rule map_of_SomeD)
  then have "c \<in> set ascii_uppercase" and "l \<in> set ascii_lowercase"
    by (auto dest: set_zip_leftD set_zip_rightD)
  with Some show ?thesis
    by (simp add: to_lower_def is_upper_def is_lower_def)
qed

lemma to_upper_cases:
  "(is_lower c \<and> is_upper (to_upper c)) \<or> (\<not> is_lower c \<and> to_upper c = c)"
proof (cases "map_of (zip ascii_lowercase ascii_uppercase) c")
  case None
  moreover have "length ascii_lowercase = length ascii_uppercase"
    by (simp add: ascii_uppercase_def ascii_lowercase_def)
  ultimately have "c \<notin> set ascii_lowercase"
    by simp
  with None show ?thesis
    by (simp add: to_upper_def is_lower_def)
next
  case (Some u)
  then have "(c, u) \<in> set (zip ascii_lowercase ascii_uppercase)"
    by (rule map_of_SomeD)
  then have "c \<in> set ascii_lowercase" and "u \<in> set ascii_uppercase"
    by (auto dest: set_zip_leftD set_zip_rightD)
  with Some show ?thesis
    by (simp add: to_upper_def is_upper_def is_lower_def)
qed

lemma not_both_cases: "is_upper c \<Longrightarrow> \<not> is_lower c"
  using cases_disjoint by (auto simp: is_upper_def is_lower_def)

lemma to_lower_idem: "to_lower (to_lower c) = to_lower c"
  using to_lower_cases [of c] to_lower_cases [of "to_lower c"] not_both_cases by auto

lemma to_upper_idem: "to_upper (to_upper c) = to_upper c"
  using to_upper_cases [of c] to_upper_cases [of "to_upper c"] not_both_cases by auto

lemma is_cased_to_lower: "is_cased (to_lower c) = is_cased c"
  using to_lower_cases [of c] by (auto simp: is_cased_def)

lemma is_cased_to_upper: "is_cased (to_upper c) = is_cased c"
  using to_upper_cases [of c] by (auto simp: is_cased_def)

lemma title_from_length: "length (title_from b s) = length s"
  by (induction s arbitrary: b) simp_all

lemma title_from_nth:
  "i < length s \<Longrightarrow>
   title_from b s ! i =
     (if (if i = 0 then b else is_cased (s ! (i - 1))) then to_lower (s ! i)
      else to_upper (s ! i))"
proof (induction s arbitrary: b i)
  case Nil
  then show ?case by simp
next
  case (Cons c cs)
  show ?case
  proof (cases i)
    case 0
    then show ?thesis by simp
  next
    case (Suc k)
    with Cons.prems have "k < length cs"
      by simp
    from Cons.IH [OF this, of "is_cased c"] Suc show ?thesis
      by (cases k) simp_all
  qed
qed

lemma title_from_idem: "title_from b (title_from b s) = title_from b s"
  by (induction s arbitrary: b)
     (simp_all add: to_lower_idem to_upper_idem is_cased_to_lower is_cased_to_upper)

lemma title_idem: "title (title s) = title s"
  by (simp add: title_def title_from_idem)

lemma lower_idem: "lower (lower s) = lower s"
  by (simp add: lower_def to_lower_idem)

lemma title_name_not_Nan: "title_name v \<noteq> Str ''Nan''"
  by (simp add: title_name_def Let_def)

lemma title_name_idem: "\<not> isna (title_name v) \<Longrightarrow> title_name (title_name v) = title_name v"
  by (simp add: title_name_def Let_def title_idem split: if_splits)

lemma lower_email_idem: "\<not> isna (lower_email v) \<Longrightarrow> lower_email (lower_email v) = lower_email v"
  by (simp add: lower_email_def Let_def lower_idem split: if_splits)

lemma dob_value_cases:
  "dob_value P col j v = NaN \<or> (\<exists>t. dob_value P col j v = Str (strftime t))"
  by (auto simp: dob_value_def split: option.splits)

section \<open>Cells of a row\<close>

lemma label_in_row: "(c, v) \<in> set r \<Longrightarrow> c \<in> fst ` set r"
  by force

lemma map_of_set_cell:
  "map_of (set_cell c v r) c' =
     (if c' = c then Some v else map_of r c')"
proof (cases "c \<in> set (map fst r)")
  case True
  have "map_of (map (\<lambda>(k, x). (k, if k = c then v else x)) r) c' =
        (if c' = c then (if c \<in> set (map fst r) then Some v else None) else map_of r c')"
    by (induction r) (auto intro: label_in_row)
  with True show ?thesis
    by (simp add: set_cell_def)
next
  case False
  then have "map_of r c = None"
    by (simp add: map_of_eq_None_iff)
  with False show ?thesis
    by (auto simp: set_cell_def map_add_def split: option.splits)
qed

lemma cell_at_set_cell:
  "cell_at (set_cell c v r) c' = (if c' = c then v else cell_at r c')"
  by (simp add: cell_at_def map_of_set_cell)

lemma map_of_filter_label:
  "map_of (filter (\<lambda>(k, v). k = c) r) c' = (if c' = c then map_of r c' else None)"
  by (induction r) auto

lemma map_of_loc_row:
  "map_of (loc_row cs r) c = (if c \<in> set cs then map_of r c else None)"
proof (induction cs)
  case Nil
  show ?case by (simp add: loc_row_def)
next
  case (Cons a cs)
  have "loc_row (a # cs) r = filter (\<lambda>(k, v). k = a) r @ loc_row cs r"
    by (simp add: loc_row_def)
  then show ?case
    using Cons by (auto simp: map_add_def map_of_filter_label split: option.splits)
qed

lemma cell_at_loc_row:
  "cell_at (loc_row cs r) c = (if c \<in> set cs then cell_at r c else NaN)"
  by (simp add: cell_at_def map_of_loc_row)

lemma std_row_cells:
  "cell_at (std_row P code col j r) ''external_id'' = cell_at r ''external_id''"
  "cell_at (std_row P code col j r) ''first_name'' = title_name (cell_at r ''first_name'')"
  "cell_at (std_row P code col j r) ''last_name'' = title_name (cell_at r ''last_name'')"
  "cell_at (std_row P code col j r) ''email'' = lower_email (cell_at r ''email'')"
  "cell_at (std_row P code col j r) ''dob'' = dob_value P col j (cell_at r ''dob'')"
  "cell_at (std_row P code col j r) ''phone'' = format_phone (cell_at r ''phone'')"
  "cell_at (std_row P code col j r) ''partner_code'' = Str code"
  by (simp_all add: std_row_def Let_def cell_at_loc_row cell_at_set_cell cols_def)

lemma other_cells_set_cell:
  "filter (\<lambda>(k, v). k \<noteq> c) (set_cell c v r) = filter (\<lambda>(k, v). k \<noteq> c) r"
proof -
  have "filter (\<lambda>(k, v). k \<noteq> c) (map (\<lambda>(k, x). (k, if k = c then v else x)) r)
        = filter (\<lambda>(k, v). k \<noteq> c) r"
    by (induction r) auto
  then show ?thesis
    by (simp add: set_cell_def)
qed

lemma keys_set_cell_list:
  "map fst (set_cell c v r) = (if c \<in> set (map fst r) then map fst r else map fst r @ [c])"
proof -
  have "map fst (map (\<lambda>(k, x). (k, if k = c then v else x)) r) = map fst r"
    by (induction r) auto
  then show ?thesis
    by (simp add: set_cell_def)
qed

lemma keys_set_cell: "fst ` set (set_cell c v r) = insert c (fst ` set r)"
proof -
  have "set (map fst (set_cell c v r)) = insert c (set (map fst r))"
    by (auto simp: keys_set_cell_list)
  then show ?thesis
    by simp
qed

lemma set_loc_row: "set (loc_row cs r) = {(k, x). (k, x) \<in> set r \<and> k \<in> set cs}"
  by (auto simp: loc_row_def)

lemma filter_loc_row:
  "distinct cs \<Longrightarrow>
   filter (\<lambda>(k, v). k = c) (loc_row cs r)
     = (if c \<in> set cs then filter (\<lambda>(k, v). k = c) r else [])"
proof (induction cs)
  case Nil
  show ?case by (simp add: loc_row_def)
next
  case (Cons a cs)
  have step: "loc_row (a # cs) r = filter (\<lambda>(k, v). k = a) r @ loc_row cs r"
    by (simp add: loc_row_def)
  have both: "filter (\<lambda>x. (case x of (k, v) \<Rightarrow> k = a) \<and> (case x of (k, v) \<Rightarrow> k = c)) r
              = (if c = a then filter (\<lambda>(k, v). k = a) r else [])"
    by (induction r) auto
  from Cons show ?case
    by (auto simp: step both)
qed

lemma loc_row_idem:
  assumes "distinct cs"
  shows "loc_row cs (loc_row cs r) = loc_row cs r"
proof -
  have same: "map (\<lambda>c. filter (\<lambda>(k, v). k = c) (loc_row cs r)) cs
        = map (\<lambda>c. filter (\<lambda>(k, v). k = c) r) cs"
    by (rule map_cong) (simp_all add: filter_loc_row [OF assms])
  have "loc_row cs (loc_row cs r)
        = concat (map (\<lambda>c. filter (\<lambda>(k, v). k = c) (loc_row cs r)) cs)"
    by (rule loc_row_def)
  also have "\<dots> = concat (map (\<lambda>c. filter (\<lambda>(k, v). k = c) r) cs)"
    by (simp only: same)
  also have "\<dots> = loc_row cs r"
    by (rule loc_row_def [symmetric])
  finally show ?thesis .
qed

lemma distinct_cols: "distinct cols"
  by (simp add: cols_def)

lemma all_cells_set_cell: "all_cells c v (set_cell c v r)"
proof -
  have "c \<in> set (map fst (set_cell c v r))"
    by (simp add: keys_set_cell)
  moreover have "x = v" if "(c, x) \<in> set (set_cell c v r)" for x
    using that by (auto simp: set_cell_def split: if_splits dest: label_in_row)
  ultimately show ?thesis
    unfolding all_cells_def by blast
qed

lemma all_cells_set_other:
  assumes "c' \<noteq> c" and "all_cells c v r"
  shows "all_cells c v (set_cell c' v' r)"
proof -
  have "c \<in> set (map fst (set_cell c' v' r))"
    using assms(2) by (simp add: keys_set_cell all_cells_def)
  moreover have "x = v" if "(c, x) \<in> set (set_cell c' v' r)" for x
  proof -
    from that assms(1) have "(c, x) \<in> set r"
      by (auto simp: set_cell_def split: if_splits)
    with assms(2) show ?thesis
      by (auto simp: all_cells_def)
  qed
  ultimately show ?thesis
    by (auto simp: all_cells_def)
qed

lemma all_cells_loc_row:
  assumes "c \<in> set cs" and "all_cells c v r"
  shows "all_cells c v (loc_row cs r)"
  using assms by (force simp: all_cells_def set_loc_row)

lemma cell_at_all_cells: "all_cells c v r \<Longrightarrow> cell_at r c = v"
proof -
  assume a: "all_cells c v r"
  then obtain x where "map_of r c = Some x"
    by (auto simp: all_cells_def) (metis map_of_eq_None_iff not_Some_eq image_eqI fst_conv)
  moreover from this have "(c, x) \<in> set r"
    by (rule map_of_SomeD)
  ultimately show ?thesis
    using a by (auto simp: all_cells_def cell_at_def)
qed

lemma set_cell_all_cells:
  assumes "all_cells c v r"
  shows "set_cell c v r = r"
proof -
  have "map (\<lambda>(k, x). (k, if k = c then v else x)) r = r"
    using assms by (intro map_idI) (auto simp: all_cells_def)
  with assms show ?thesis
    by (simp add: set_cell_def all_cells_def)
qed

lemma rewrite_cell_fixed:
  assumes "all_cells c v r" and "f v = v"
  shows "set_cell c (f (cell_at r c)) r = r"
  using assms by (simp add: cell_at_all_cells set_cell_all_cells)

lemma std_row_all_cells:
  "all_cells ''first_name'' (title_name (cell_at r ''first_name'')) (std_row P code col j r)"
  "all_cells ''last_name'' (title_name (cell_at r ''last_name'')) (std_row P code col j r)"
  "all_cells ''email'' (lower_email (cell_at r ''email'')) (std_row P code col j r)"
  "all_cells ''dob'' (dob_value P col j (cell_at r ''dob'')) (std_row P code col j r)"
  "all_cells ''phone'' (format_phone (cell_at r ''phone'')) (std_row P code col j r)"
  "all_cells ''partner_code'' (Str code) (std_row P code col j r)"
  unfolding std_row_def Let_def
  by (simp_all add: all_cells_loc_row all_cells_set_other all_cells_set_cell cell_at_set_cell
      cols_def)

lemma std_row_fixed:
  assumes "all_cells ''first_name'' a r" "title_name a = a"
    and "all_cells ''last_name'' b r" "title_name b = b"
    and "all_cells ''email'' e r" "lower_email e = e"
    and "all_cells ''dob'' d r" "dob_value P col j d = d"
    and "all_cells ''phone'' p r" "format_phone p = p"
    and "all_cells ''partner_code'' (Str code) r"
    and "loc_row cols r = r"
  shows "std_row P code col j r = r"
proof -
  have 1: "set_cell ''first_name'' (title_name (cell_at r ''first_name'')) r = r"
    using assms(1,2) by (rule rewrite_cell_fixed)
  have 2: "set_cell ''last_name'' (title_name (cell_at r ''last_name'')) r = r"
    using assms(3,4) by (rule rewrite_cell_fixed)
  have 3: "set_cell ''email'' (lower_email (cell_at r ''email'')) r = r"
    using assms(5,6) by (rule rewrite_cell_fixed)
  have 4: "set_cell ''dob'' (dob_value P col j (cell_at r ''dob'')) r = r"
    using assms(7,8) by (rule rewrite_cell_fixed)
  have 5: "set_cell ''phone'' (format_phone (cell_at r ''phone'')) r = r"
    using assms(9,10) by (rule rewrite_cell_fixed)
  have 6: "set_cell ''partner_code'' (Str code) r = r"
    using assms(11) by (rule set_cell_all_cells)
  show ?thesis
    by (simp add: std_row_def Let_def 1 2 3 4 5 6 assms(12))
qed

lemma std_row_again:
  fixes r :: row and P :: date_reader and code :: string and col :: "cell list" and j :: nat
  defines "r1 \<equiv> std_row P code col j r"
  assumes "\<not> isna (cell_at r1 ''first_name'')" "\<not> isna (cell_at r1 ''last_name'')"
    and "\<not> isna (cell_at r1 ''email'')"
    and "dob_value P' col' j' (cell_at r1 ''dob'') = cell_at r1 ''dob''"
  shows "std_row P' code col' j' r1 = r1"
proof (rule std_row_fixed)
  show "all_cells ''first_name'' (title_name (cell_at r ''first_name'')) r1"
    "all_cells ''last_name'' (title_name (cell_at r ''last_name'')) r1"
    "all_cells ''email'' (lower_email (cell_at r ''email'')) r1"
    "all_cells ''dob'' (dob_value P col j (cell_at r ''dob'')) r1"
    "all_cells ''phone'' (format_phone (cell_at r ''phone'')) r1"
    "all_cells ''partner_code'' (Str code) r1"
    unfolding r1_def by (rule std_row_all_cells)+
  show "title_name (title_name (cell_at r ''first_name'')) = title_name (cell_at r ''first_name'')"
    using assms(2) by (simp add: r1_def std_row_cells title_name_idem)
  show "title_name (title_name (cell_at r ''last_name'')) = title_name (cell_at r ''last_name'')"
    using assms(3) by (simp add: r1_def std_row_cells title_name_idem)
  show "lower_email (lower_email (cell_at r ''email'')) = lower_email (cell_at r ''email'')"
    using assms(4) by (simp add: r1_def std_row_cells lower_email_idem)
  show "dob_value P' col' j' (dob_value P col j (cell_at r ''dob'')) = dob_value P col j (cell_at r ''dob'')"
    using assms(5) by (simp add: r1_def std_row_cells)
  show "format_phone (format_phone (cell_at r ''phone'')) = format_phone (cell_at r ''phone'')"
    by (rule format_phone_idem)
  show "loc_row cols r1 = r1"
    unfolding r1_def std_row_def Let_def by (rule loc_row_idem [OF distinct_cols])
qed

section \<open>Labels of a frame\<close>

lemma count_list_filter_label:
  "count_list (filter (\<lambda>k. k = c) ks) x = (if x = c then count_list ks x else 0)"
  by (induction ks) auto

lemma count_list_loc_labels:
  "distinct cs \<Longrightarrow>
   count_list (concat (map (\<lambda>c. filter (\<lambda>k. k = c) ks) cs)) x
     = (if x \<in> set cs then count_list ks x else 0)"
  by (induction cs) (auto simp: count_list_filter_label)

lemma set_loc_labels:
  "set (concat (map (\<lambda>c. filter (\<lambda>k. k = c) ks) cs)) = set ks \<inter> set cs"
  by auto

lemma filter_loc_labels:
  "distinct cs \<Longrightarrow>
   filter (\<lambda>k. k = c) (concat (map (\<lambda>c. filter (\<lambda>k. k = c) ks) cs))
     = (if c \<in> set cs then filter (\<lambda>k. k = c) ks else [])"
proof (induction cs)
  case Nil
  show ?case by simp
next
  case (Cons a cs)
  have both: "filter (\<lambda>k. k = a \<and> k = c) ks = (if c = a then filter (\<lambda>k. k = a) ks else [])"
    by (induction ks) auto
  from Cons show ?case
    by (auto simp: both)
qed

lemma loc_labels_idem:
  assumes "distinct cs"
  shows "concat (map (\<lambda>c. filter (\<lambda>k. k = c)
                        (concat (map (\<lambda>c. filter (\<lambda>k. k = c) ks) cs))) cs)
         = concat (map (\<lambda>c. filter (\<lambda>k. k = c) ks) cs)"
proof -
  have "map (\<lambda>c. filter (\<lambda>k. k = c) (concat (map (\<lambda>c. filter (\<lambda>k. k = c) ks) cs))) cs
        = map (\<lambda>c. filter (\<lambda>k. k = c) ks) cs"
    by (rule map_cong) (simp_all add: filter_loc_labels [OF assms])
  then show ?thesis
    by (simp only:)
qed

lemma set_label_present: "c \<in> set ks \<Longrightarrow> set_label c ks = ks"
  by (simp add: set_label_def)

lemma rows_simps [simp]:
  "rows (map_column c f df) = map (\<lambda>(i, r). (i, set_cell c (f (cell_at r c)) r)) (rows df)"
  "rows (assign_column c v df) = map (\<lambda>(i, r). (i, set_cell c v r)) (rows df)"
  "rows (select_rows m df) = filter (\<lambda>(i, r). m r) (rows df)"
  "rows (loc_columns cs df) = map (\<lambda>(i, r). (i, loc_row cs r)) (rows df)"
  "rows (parse_dob_column P df) =
     map (\<lambda>(j, (i, r)).
            (i, set_cell ''dob''
                  (dob_value P (map (\<lambda>(i, r). cell_at r ''dob'') (rows df)) j (cell_at r ''dob'')) r))
         (enumerate 0 (rows df))"
  by (simp_all add: map_column_def assign_column_def select_rows_def loc_columns_def
      parse_dob_column_def Let_def)

lemma columns_simps [simp]:
  "columns (map_column c f df) = set_label c (columns df)"
  "columns (assign_column c v df) = set_label c (columns df)"
  "columns (select_rows m df) = columns df"
  "columns (parse_dob_column P df) = set_label ''dob'' (columns df)"
  by (simp_all add: map_column_def assign_column_def select_rows_def parse_dob_column_def Let_def)

lemma normalised_rows:
  fixes K :: "(nat \<times> row) list" and C :: "string list"
  defines "d1 \<equiv> map_column ''email'' lower_email
                  (map_column ''last_name'' title_name
                    (map_column ''first_name'' title_name \<lparr>columns = C, rows = K\<rparr>))"
  shows "rows (loc_columns cols
            (assign_column ''partner_code'' (Str code)
              (map_column ''phone'' format_phone (parse_dob_column P d1)))) =
         map (\<lambda>(j, (i, r)). (i, std_row P code (map (\<lambda>(i, r). cell_at r ''dob'') K) j r))
             (enumerate 0 K)"
proof -
  have len: "length (rows d1) = length K"
    by (simp add: d1_def)
  have dobs: "map (\<lambda>p. cell_at (snd p) ''dob'') (rows d1) = map (\<lambda>p. cell_at (snd p) ''dob'') K"
    by (simp add: d1_def split_def o_def cell_at_set_cell)
  have row: "rows d1 ! j =
      (fst (K ! j),
       set_cell ''email'' (lower_email (cell_at (snd (K ! j)) ''email''))
        (set_cell ''last_name'' (title_name (cell_at (snd (K ! j)) ''last_name''))
          (set_cell ''first_name'' (title_name (cell_at (snd (K ! j)) ''first_name'')) (snd (K ! j)))))"
    if "j < length K" for j
    using that by (simp add: d1_def split_def cell_at_set_cell)
  show ?thesis
  proof (rule nth_equalityI)
    show "length (rows (loc_columns cols
            (assign_column ''partner_code'' (Str code)
              (map_column ''phone'' format_phone (parse_dob_column P d1))))) =
          length (map (\<lambda>(j, (i, r)). (i, std_row P code (map (\<lambda>(i, r). cell_at r ''dob'') K) j r))
             (enumerate 0 K))"
      by (simp add: len)
  next
    fix j
    assume "j < length (rows (loc_columns cols
            (assign_column ''partner_code'' (Str code)
              (map_column ''phone'' format_phone (parse_dob_column P d1)))))"
    then have j: "j < length K"
      by (simp add: len)
    then show "rows (loc_columns cols
            (assign_column ''partner_code'' (Str code)
              (map_column ''phone'' format_phone (parse_dob_column P d1)))) ! j =
          map (\<lambda>(j, (i, r)). (i, std_row P code (map (\<lambda>(i, r). cell_at r ''dob'') K) j r))
             (enumerate 0 K) ! j"
      by (simp add: len dobs row nth_enumerate_eq split_def std_row_def Let_def cell_at_set_cell)
  qed
qed

lemma labels_ensure_column: "set (columns (ensure_column df c)) = insert c (set (columns df))"
  by (auto simp: ensure_column_def assign_column_def set_label_def)

lemma renamed_has_expected: "set expected_columns \<subseteq> set (columns (renamed conf df))"
proof -
  have "set (columns (foldl ensure_column d cs)) = set (columns d) \<union> set cs" for d cs
    by (induction cs arbitrary: d) (auto simp: labels_ensure_column)
  then show ?thesis
    by (simp add: renamed_def)
qed

lemma renamed_labels_nonempty: "columns (renamed conf df) \<noteq> []"
  using renamed_has_expected [of conf df] by (auto simp: expected_columns_def)

lemma standardize_Inr:
  assumes "standardize_dataframe P df conf = Inr (std, dr)"
  shows "rows std =
           map (\<lambda>(j, (i, r)).
                  (i, std_row P (partner_code conf)
                        (dob_column (kept_rows conf df)) j r))
               (enumerate 0 (kept_rows conf df))"
    and "rows dr =
           map (\<lambda>(i, r). (i, set_cell ''partner_code'' (Str (partner_code conf)) r))
               (missing_rows conf df)"
proof -
  let ?df = "renamed conf df"
  let ?kept = "select_rows (\<lambda>r. \<not> mask_missing_id r) ?df"
  have k: "?kept = \<lparr>columns = columns ?df, rows = kept_rows conf df\<rparr>"
    by (simp add: select_rows_def kept_rows_def)
  from assms have "std = loc_columns cols
            (assign_column ''partner_code'' (Str (partner_code conf))
              (map_column ''phone'' format_phone (parse_dob_column P
                (map_column ''email'' lower_email
                  (map_column ''last_name'' title_name
                    (map_column ''first_name'' title_name ?kept))))))"
    by (simp add: standardize_dataframe_def Let_def split: if_splits)
  then show "rows std =
           map (\<lambda>(j, (i, r)).
                  (i, std_row P (partner_code conf)
                        (dob_column (kept_rows conf df)) j r))
               (enumerate 0 (kept_rows conf df))"
    unfolding k dob_column_def by (simp only: normalised_rows)
  from assms have "dr = (if \<not> df_empty (select_rows mask_missing_id ?df)
               then assign_column ''partner_code'' (Str (partner_code conf))
                      (select_rows mask_missing_id ?df)
               else select_rows mask_missing_id ?df)"
    by (simp add: standardize_dataframe_def Let_def split: if_splits)
  moreover have "columns ?df \<noteq> []"
    by (rule renamed_labels_nonempty)
  ultimately show "rows dr =
           map (\<lambda>(i, r). (i, set_cell ''partner_code'' (Str (partner_code conf)) r))
               (missing_rows conf df)"
    by (auto simp: missing_rows_def df_empty_def)
qed

lemma standardize_returns_iff:
  "(\<exists>res. standardize_dataframe P df conf = Inr res)
   \<longleftrightarrow> \<not> raises_on_labels (renamed conf df)"
  by (auto simp: standardize_dataframe_def Let_def)

lemma standardize_label_counts:
  assumes "standardize_dataframe P df conf = Inr (std, dr)"
  shows "\<forall>c \<in> set [''external_id'', ''first_name'', ''last_name'', ''email'', ''dob''].
           count_list (columns (renamed conf df)) c = 1"
    and "count_list (columns (renamed conf df)) ''phone'' \<noteq> 1 \<Longrightarrow> kept_rows conf df = []"
proof -
  from assms have n: "\<not> raises_on_labels (renamed conf df)"
    using standardize_returns_iff [of P df conf] by blast
  then show "\<forall>c \<in> set [''external_id'', ''first_name'', ''last_name'', ''email'', ''dob''].
           count_list (columns (renamed conf df)) c = 1"
    unfolding raises_on_labels_def by blast
  from n show "kept_rows conf df = []"
    if "count_list (columns (renamed conf df)) ''phone'' \<noteq> 1"
    using that by (simp add: raises_on_labels_def kept_rows_def select_rows_def)
qed

lemma standardize_frames:
  assumes "standardize_dataframe P df conf = Inr (std, dr)"
  shows "columns std
           = concat (map (\<lambda>c. filter (\<lambda>k. k = c)
                                 (set_label ''partner_code'' (columns (renamed conf df)))) cols)"
    and "dr = (if missing_rows conf df = []
               then \<lparr>columns = columns (renamed conf df), rows = []\<rparr>
               else \<lparr>columns = set_label ''partner_code'' (columns (renamed conf df)),
                     rows = map (\<lambda>(i, r). (i, set_cell ''partner_code''
                                                 (Str (partner_code conf)) r))
                                (missing_rows conf df)\<rparr>)"
proof -
  let ?df = "renamed conf df"
  have ins: "''first_name'' \<in> set (columns ?df)" "''last_name'' \<in> set (columns ?df)"
    "''email'' \<in> set (columns ?df)" "''dob'' \<in> set (columns ?df)"
    "''phone'' \<in> set (columns ?df)" "''external_id'' \<in> set (columns ?df)"
    using renamed_has_expected [of conf df] by (auto simp: expected_columns_def)
  from assms have "std = loc_columns cols
            (assign_column ''partner_code'' (Str (partner_code conf))
              (map_column ''phone'' format_phone (parse_dob_column P
                (map_column ''email'' lower_email
                  (map_column ''last_name'' title_name
                    (map_column ''first_name'' title_name
                      (select_rows (\<lambda>r. \<not> mask_missing_id r) ?df)))))))"
    by (simp add: standardize_dataframe_def Let_def split: if_splits)
  then show "columns std
           = concat (map (\<lambda>c. filter (\<lambda>k. k = c)
                                 (set_label ''partner_code'' (columns ?df))) cols)"
    by (simp add: loc_columns_def set_label_present ins)
  have ne: "columns ?df \<noteq> []"
    using ins(1) by auto
  from assms have "dr = (if \<not> df_empty (select_rows mask_missing_id ?df)
               then assign_column ''partner_code'' (Str (partner_code conf))
                      (select_rows mask_missing_id ?df)
               else select_rows mask_missing_id ?df)"
    by (simp add: standardize_dataframe_def Let_def split: if_splits)
  then show "dr = (if missing_rows conf df = []
               then \<lparr>columns = columns ?df, rows = []\<rparr>
               else \<lparr>columns = set_label ''partner_code'' (columns ?df),
                     rows = map (\<lambda>(i, r). (i, set_cell ''partner_code''
                                                 (Str (partner_code conf)) r))
                                (missing_rows conf df)\<rparr>)"
    using ne by (simp add: df_empty_def missing_rows_def select_rows_def assign_column_def)
qed

lemma index_ensure_column: "map fst (rows (ensure_column df c)) = map fst (rows df)"
  by (simp add: ensure_column_def assign_column_def split_def o_def)

lemma index_renamed: "map fst (rows (renamed conf df)) = map fst (rows df)"
proof -
  have "map fst (rows (foldl ensure_column d cs)) = map fst (rows d)" for d cs
    by (induction cs arbitrary: d) (simp_all add: index_ensure_column)
  then show ?thesis
    by (simp add: renamed_def rename_columns_def split_def o_def)
qed

lemma has_id_iff:
  "\<not> mask_missing_id r \<longleftrightarrow> (\<exists>s. cell_at r ''external_id'' = Str s \<and> strip s \<noteq> [])"
  by (cases "cell_at r ''external_id''") (simp_all add: mask_missing_id_def)

lemma index_enumerated:
  "map fst (map (\<lambda>(j, (i, r)). (i, f j r)) (enumerate n K)) = map fst K"
  by (induction K arbitrary: n) auto

lemma index_std:
  assumes "standardize_dataframe P df conf = Inr (std, dr)"
  shows "map fst (rows std) = map fst (kept_rows conf df)"
  by (simp only: standardize_Inr(1) [OF assms] index_enumerated)

lemma index_dropped:
  assumes "standardize_dataframe P df conf = Inr (std, dr)"
  shows "map fst (rows dr) = map fst (missing_rows conf df)"
  by (simp add: standardize_Inr(2) [OF assms] split_def o_def)

lemma std_nth:
  assumes "standardize_dataframe P df conf = Inr (std, dr)" and "j < length (kept_rows conf df)"
  shows "rows std ! j =
           (fst (kept_rows conf df ! j),
            std_row P (partner_code conf) (dob_column (kept_rows conf df)) j
              (snd (kept_rows conf df ! j)))"
  using assms(2) by (simp add: standardize_Inr(1) [OF assms(1)] nth_enumerate_eq split_def)

lemma std_length:
  assumes "standardize_dataframe P df conf = Inr (std, dr)"
  shows "length (rows std) = length (kept_rows conf df)"
  by (simp add: standardize_Inr(1) [OF assms])

lemma in_rows_std:
  assumes "standardize_dataframe P df conf = Inr (std, dr)" and "(i, r') \<in> set (rows std)"
  shows "\<exists>j r. (i, r) \<in> set (kept_rows conf df)
               \<and> r' = std_row P (partner_code conf) (dob_column (kept_rows conf df)) j r"
proof -
  from assms(2) obtain j where j: "j < length (rows std)" and at: "rows std ! j = (i, r')"
    by (auto simp: in_set_conv_nth)
  from j have jk: "j < length (kept_rows conf df)"
    by (simp add: std_length [OF assms(1)])
  from at std_nth [OF assms(1) jk]
  have "i = fst (kept_rows conf df ! j)"
    and "r' = std_row P (partner_code conf) (dob_column (kept_rows conf df)) j
                (snd (kept_rows conf df ! j))"
    by simp_all
  moreover have "kept_rows conf df ! j \<in> set (kept_rows conf df)"
    using jk by simp
  ultimately show ?thesis
    by (metis prod.collapse)
qed

lemma std_labels:
  assumes "standardize_dataframe P df conf = Inr (std, dr)"
  shows "set (columns std) = set cols"
    and "\<forall>c \<in> set expected_columns.
           count_list (columns std) c = count_list (columns (renamed conf df)) c"
proof -
  let ?ks = "set_label ''partner_code'' (columns (renamed conf df))"
  note sub = renamed_has_expected [of conf df]
  have "set cols \<subseteq> set ?ks"
    using sub by (auto simp: cols_def expected_columns_def set_label_def)
  then show "set (columns std) = set cols"
    by (auto simp: standardize_frames(1) [OF assms] set_loc_labels simp del: set_concat)
  have same: "count_list ?ks c = count_list (columns (renamed conf df)) c"
    if "c \<in> set expected_columns" for c
    using that by (auto simp: set_label_def expected_columns_def)
  show "\<forall>c \<in> set expected_columns.
           count_list (columns std) c = count_list (columns (renamed conf df)) c"
  proof
    fix c
    assume c: "c \<in> set expected_columns"
    then have "c \<in> set cols"
      by (auto simp: cols_def expected_columns_def)
    then have "count_list (columns std) c = count_list ?ks c"
      by (simp add: standardize_frames(1) [OF assms] count_list_loc_labels distinct_cols)
    with same [OF c] show "count_list (columns std) c = count_list (columns (renamed conf df)) c"
      by simp
  qed
qed

lemma std_rows_have_id:
  assumes "standardize_dataframe P df conf = Inr (std, dr)" and "(i, r') \<in> set (rows std)"
  shows "\<not> mask_missing_id r'"
proof -
  from in_rows_std [OF assms] obtain j r where
    k: "(i, r) \<in> set (kept_rows conf df)"
    and r': "r' = std_row P (partner_code conf) (dob_column (kept_rows conf df)) j r"
    by blast
  from k have "\<not> mask_missing_id r"
    by (simp add: kept_rows_def)
  then show ?thesis
    by (simp add: mask_missing_id_def r' std_row_cells)
qed

lemma std_row_keys:
  assumes "standardize_dataframe P df conf = Inr (std, dr)" and "(i, r') \<in> set (rows std)"
    and "(k, v) \<in> set r'"
  shows "k \<in> set cols"
proof -
  from in_rows_std [OF assms(1,2)] obtain j r where
    "r' = std_row P (partner_code conf) (dob_column (kept_rows conf df)) j r"
    by blast
  with assms(3) show ?thesis
    by (auto simp: std_row_def Let_def set_loc_row)
qed

lemma renamed_std:
  assumes "standardize_dataframe P df conf = Inr (std, dr)"
    and keep: "\<forall>c \<in> set cols. rename_label (column_mapping conf) c = c"
  shows "renamed conf std = std"
proof -
  have cs: "map (rename_label (column_mapping conf)) (columns std) = columns std"
    using keep std_labels(1) [OF assms(1)] by (intro map_idI) auto
  have rs: "map (\<lambda>(i, r). (i, map (\<lambda>(k, v). (rename_label (column_mapping conf) k, v)) r))
              (rows std) = rows std"
  proof (rule map_idI)
    fix x
    assume x: "x \<in> set (rows std)"
    obtain i r where xr: "x = (i, r)"
      by (cases x)
    have "map (\<lambda>(k, v). (rename_label (column_mapping conf) k, v)) r = r"
    proof (rule map_idI)
      fix y
      assume y: "y \<in> set r"
      obtain k v where yk: "y = (k, v)"
        by (cases y)
      from std_row_keys [OF assms(1)] x y xr yk have "k \<in> set cols"
        by blast
      with keep yk show "(case y of (k, v) \<Rightarrow> (rename_label (column_mapping conf) k, v)) = y"
        by simp
    qed
    with xr show "(case x of (i, r) \<Rightarrow>
                    (i, map (\<lambda>(k, v). (rename_label (column_mapping conf) k, v)) r)) = x"
      by simp
  qed
  have rn: "rename_columns (column_mapping conf) std = std"
    by (simp add: rename_columns_def cs rs)
  have "set expected_columns \<subseteq> set (columns std)"
    by (auto simp: std_labels(1) [OF assms(1)] cols_def expected_columns_def)
  then have "foldl ensure_column std expected_columns = std"
    by (simp add: expected_columns_def ensure_column_def)
  then show ?thesis
    by (simp add: renamed_def rn)
qed

section \<open>Standardizing the accepted records again\<close>

text \<open>
  Let the accepted records of a run have a first_name, a last_name and an email that
  are present and of ASCII characters, let the mapping rename none of the seven
  output labels, and let the date parser read each text of the records' dob column
  back as the date it is. Then a second run returns the same records and drops none.
\<close>

lemma restandardize_fixed:
  assumes run: "standardize_dataframe P df conf = Inr (std, dr)"
    and keep: "\<forall>c \<in> set cols. rename_label (column_mapping conf) c = c"
    and present: "\<forall>(i, r) \<in> set (rows std).
                    \<not> isna (cell_at r ''first_name'') \<and> \<not> isna (cell_at r ''last_name'')
                    \<and> \<not> isna (cell_at r ''email'')"
    and ascii: "\<forall>(i, r) \<in> set (rows std).
                  list_all is_ascii (py_str (cell_at r ''first_name''))
                  \<and> list_all is_ascii (py_str (cell_at r ''last_name''))
                  \<and> list_all is_ascii (py_str (cell_at r ''email''))"
    and dates: "\<forall>j < length (rows std). \<forall>s. dob_column (rows std) ! j = Str s \<longrightarrow>
                  (\<exists>t. P (dob_column (rows std)) j = Some t \<and> strftime t = s)"
  shows "standardize_dataframe P std conf = Inr (std, \<lparr>columns = columns std, rows = []\<rparr>)"
proof -
  note ren = renamed_std [OF run keep]
  have five: "\<forall>c \<in> set [''external_id'', ''first_name'', ''last_name'', ''email'', ''dob''].
                count_list (columns std) c = 1"
    using std_labels(2) [OF run] standardize_label_counts(1) [OF run]
    by (auto simp: expected_columns_def)
  have none_kept: "rows (select_rows (\<lambda>r. \<not> mask_missing_id r) std) = []"
    if "count_list (columns std) ''phone'' \<noteq> 1"
  proof -
    from that std_labels(2) [OF run]
    have "count_list (columns (renamed conf df)) ''phone'' \<noteq> 1"
      by (simp add: expected_columns_def)
    then have "kept_rows conf df = []"
      by (rule standardize_label_counts(2) [OF run])
    with std_length [OF run] have "rows std = []"
      by simp
    then show ?thesis
      by (simp add: select_rows_def)
  qed
  have "\<not> raises_on_labels (renamed conf std)"
    unfolding ren raises_on_labels_def using five none_kept by blast
  then have "\<exists>res. standardize_dataframe P std conf = Inr res"
    using standardize_returns_iff [of P std conf] by blast
  then obtain std2 dr2 where run2: "standardize_dataframe P std conf = Inr (std2, dr2)"
    by (metis surj_pair)
  have kept2: "kept_rows conf std = rows std"
    unfolding kept_rows_def ren using std_rows_have_id [OF run] by (intro filter_True) auto
  have miss2: "missing_rows conf std = []"
    unfolding missing_rows_def ren using std_rows_have_id [OF run] by (auto simp: filter_empty_conv)
  let ?D1 = "dob_column (kept_rows conf df)"
  let ?D2 = "dob_column (rows std)"
  let ?code = "partner_code conf"
  have len: "length (rows std) = length (kept_rows conf df)"
    by (rule std_length [OF run])
  have fixed: "std_row P ?code ?D2 j (snd (rows std ! j)) = snd (rows std ! j)"
    if j: "j < length (rows std)" for j
  proof -
    from j len have jk: "j < length (kept_rows conf df)"
      by simp
    let ?r = "snd (kept_rows conf df ! j)"
    have at: "snd (rows std ! j) = std_row P ?code ?D1 j ?r"
      by (simp add: std_nth [OF run jk])
    have mem: "rows std ! j \<in> set (rows std)"
      using j by simp
    then have pres: "\<not> isna (cell_at (snd (rows std ! j)) ''first_name'')"
      "\<not> isna (cell_at (snd (rows std ! j)) ''last_name'')"
      "\<not> isna (cell_at (snd (rows std ! j)) ''email'')"
      using present by (auto simp: split_def)
    have d2: "?D2 ! j = cell_at (snd (rows std ! j)) ''dob''"
      using j by (simp add: dob_column_def split_def)
    have dob: "dob_value P ?D2 j (cell_at (snd (rows std ! j)) ''dob'')
               = cell_at (snd (rows std ! j)) ''dob''"
    proof -
      have "cell_at (snd (rows std ! j)) ''dob'' = dob_value P ?D1 j (cell_at ?r ''dob'')"
        by (simp add: at std_row_cells)
      with dob_value_cases [of P ?D1 j "cell_at ?r ''dob''"]
      consider "cell_at (snd (rows std ! j)) ''dob'' = NaN"
        | t where "cell_at (snd (rows std ! j)) ''dob'' = Str (strftime t)"
        by auto
      then show ?thesis
      proof cases
        case 1
        then show ?thesis
          by (simp add: dob_value_def)
      next
        case (2 t)
        with dates j d2 obtain t' where "P ?D2 j = Some t'" and "strftime t' = strftime t"
          by metis
        with 2 show ?thesis
          by (simp add: dob_value_def)
      qed
    qed
    show ?thesis
      using pres dob unfolding at by (rule std_row_again)
  qed
  have rows2: "rows std2 = rows std"
  proof (rule nth_equalityI)
    show "length (rows std2) = length (rows std)"
      by (simp add: std_length [OF run2] kept2)
  next
    fix j
    assume "j < length (rows std2)"
    then have j: "j < length (rows std)"
      by (simp add: std_length [OF run2] kept2)
    then have "j < length (kept_rows conf std)"
      by (simp only: kept2)
    from std_nth [OF run2 this]
    have "rows std2 ! j = (fst (rows std ! j), std_row P ?code ?D2 j (snd (rows std ! j)))"
      by (simp only: kept2)
    then show "rows std2 ! j = rows std ! j"
      by (simp add: fixed [OF j])
  qed
  have "''partner_code'' \<in> set (columns std)"
    by (simp add: std_labels(1) [OF run] cols_def)
  then have "columns std2 = concat (map (\<lambda>c. filter (\<lambda>k. k = c) (columns std)) cols)"
    by (simp add: standardize_frames(1) [OF run2] ren set_label_present)
  also have "\<dots> = columns std"
    by (simp only: standardize_frames(1) [OF run] loc_labels_idem [OF distinct_cols])
  finally have cols2: "columns std2 = columns std" .
  have "std2 = std"
    using cols2 rows2 by (intro dataframe.equality) simp_all
  moreover have "dr2 = \<lparr>columns = columns std, rows = []\<rparr>"
    by (simp add: standardize_frames(2) [OF run2] miss2 ren)
  ultimately show ?thesis
    using run2 by simp
qed

section \<open>Read failures in ingest_partner\<close>

lemma guarded_read_failure:
  assumes "read_csv (file_path conf) (case delimiter conf of Some d \<Rightarrow> d | None \<Rightarrow> '','') True
             = Inl e"
    and "e \<noteq> TypeError"
  shows "ingest_partner read_csv P name conf = Inr (empty_frame, empty_frame)"
  using assms by (cases e) (simp_all add: ingest_partner_def Let_def)

lemma empty_frame_empty: "df_empty empty_frame"
  by (simp add: df_empty_def empty_frame_def)

lemma guarded_read_failure_skipped:
  assumes "read_csv (file_path conf) (case delimiter conf of Some d \<Rightarrow> d | None \<Rightarrow> '','') True
             = Inl e"
    and "e \<noteq> TypeError"
  shows "main_loop read_csv P ((name, conf) # rest) all_partners all_dropped
         = main_loop read_csv P rest all_partners all_dropped"
  by (simp add: guarded_read_failure [where read_csv = read_csv and conf = conf, OF assms]
      empty_frame_empty)

lemma fallback_read_failure:
  assumes "read_csv (file_path conf) (case delimiter conf of Some d \<Rightarrow> d | None \<Rightarrow> '','') True
             = Inl TypeError"
    and "read_csv (file_path conf) (case delimiter conf of Some d \<Rightarrow> d | None \<Rightarrow> '','') False
             = Inl e"
  shows "ingest_partner read_csv P name conf = Inl e"
    and "main read_csv P ((name, conf) # rest) = Inl e"
  using assms by (simp_all add: ingest_partner_def main_def Let_def)

section \<open>The examples, evaluated\<close>

lemma acme_run:
  "standardize_dataframe example_dates raw_acme conf_acme = Inr (std_acme, dropped_acme)"
  by code_simp

lemma acme_kept:
  "kept_rows conf_acme raw_acme =
     [(0, [(''external_id'', Str '' A1 ''), (''first_name'', Str ''joHN''),
           (''last_name'', Str ''NAN''), (''dob'', Str ''01/15/2020''),
           (''email'', Str ''NaN''), (''phone'', Str ''(555) 123-4567''),
           (''note'', Str ''x'')]),
      (2, [(''external_id'', Str ''B2''), (''first_name'', NaN), (''last_name'', Str ''lee''),
           (''dob'', Str ''not-a-date''), (''email'', Str ''B@X.ORG''),
           (''phone'', Str ''+1-555-123-4567''), (''note'', NaN)])]"
  by code_simp

lemma acme_missing:
  "missing_rows conf_acme raw_acme =
     [(1, [(''external_id'', Str ''  ''), (''first_name'', Str ''mary''),
           (''last_name'', Str ''major''), (''dob'', Str ''2020-01-15''),
           (''email'', Str ''M@X.ORG''), (''phone'', Str ''555 123 4567''),
           (''note'', NaN)])]"
  by code_simp

lemma acme_rerun:
  "standardize_dataframe example_dates std_acme conf_acme
     = Inr (restd_acme, \<lparr>columns = cols, rows = []\<rparr>)"
  by code_simp

lemma full_run:
  "standardize_dataframe example_dates raw_full conf_acme
     = Inr (std_full, \<lparr>columns = expected_columns, rows = []\<rparr>)"
  by code_simp

lemma new_pandas_main:
  "main new_pandas_reader example_dates [(''gone'', conf_gone), (''acme'', conf_acme)]
     = Inr (pd_concat [std_acme], pd_concat [dropped_acme])"
  by code_simp

lemma full_rerun:
  "standardize_dataframe example_dates std_full conf_acme
     = Inr (std_full, \<lparr>columns = cols, rows = []\<rparr>)"
  by code_simp

lemma mixed_run:
  "standardize_dataframe example_dates raw_mixed conf_direct
     = Inr (std_mixed, \<lparr>columns = expected_columns, rows = []\<rparr>)"
  by code_simp

lemma two_phones_run:
  "standardize_dataframe reads_nothing (raw_two_phones (Str ''A1'')) conf_direct = Inl LabelError
   \<and> standardize_dataframe reads_nothing (raw_two_phones (Str '' '')) conf_direct
     = Inr (\<lparr>columns = [''external_id'', ''first_name'', ''last_name'', ''dob'', ''email'',
                         ''phone'', ''phone'', ''partner_code''],
             rows = []\<rparr>,
            \<lparr>columns = [''external_id'', ''first_name'', ''last_name'', ''dob'', ''email'',
                         ''phone'', ''phone'', ''partner_code''],
             rows =
               [(0, [(''external_id'', Str '' ''), (''first_name'', Str ''ann''),
                     (''last_name'', Str ''lee''), (''dob'', NaN), (''email'', Str ''A@X.ORG''),
                     (''phone'', Str ''5551234567''), (''phone'', Str ''5551234568''),
                     (''partner_code'', Str ''P1'')])]\<rparr>)"
  by code_simp

section \<open>Results: the partition into accepted and dropped rows\<close>

text \<open>
  C1: every input row is in exactly one of the two results. The accepted and the
  dropped rows together are as many as the input rows and carry the input's index
  labels; when those labels are distinct no label is in both. Every accepted record
  has an external_id that is a string and is not empty after stripping; every
  dropped record has a null external_id or one that is empty after stripping.
\<close>

theorem standardize_partition:
  assumes "standardize_dataframe P df conf = Inr (std, dr)"
  shows "length (rows std) + length (rows dr) = length (rows df)
       \<and> set (map fst (rows std)) \<union> set (map fst (rows dr)) = set (map fst (rows df))
       \<and> (distinct (map fst (rows df)) \<longrightarrow>
            set (map fst (rows std)) \<inter> set (map fst (rows dr)) = {})
       \<and> (\<forall>(i, r) \<in> set (rows std).
            \<exists>s. cell_at r ''external_id'' = Str s \<and> strip s \<noteq> [])
       \<and> (\<forall>(i, r) \<in> set (rows dr).
            isna (cell_at r ''external_id'')
            \<or> (\<exists>s. cell_at r ''external_id'' = Str s \<and> strip s = []))"
proof -
  let ?R = "rows (renamed conf df)"
  let ?m = "\<lambda>(i, r). mask_missing_id r"
  have ix_std: "map fst (rows std) = map fst (filter (\<lambda>x. \<not> ?m x) ?R)"
    using index_std [OF assms] by (simp add: kept_rows_def split_def)
  have ix_dr: "map fst (rows dr) = map fst (filter ?m ?R)"
    using index_dropped [OF assms] by (simp add: missing_rows_def)
  have len: "length (rows std) + length (rows dr) = length (rows df)"
  proof -
    have "length (rows std) + length (rows dr) = length (map fst (rows std)) + length (map fst (rows dr))"
      by simp
    also have "\<dots> = length (filter (\<lambda>x. \<not> ?m x) ?R) + length (filter ?m ?R)"
      by (simp only: ix_std ix_dr length_map)
    also have "\<dots> = length ?R"
      using sum_length_filter_compl [of ?m ?R] by simp
    also have "\<dots> = length (map fst ?R)"
      by simp
    also have "\<dots> = length (rows df)"
      by (simp only: index_renamed length_map)
    finally show ?thesis .
  qed
  have un: "set (map fst (rows std)) \<union> set (map fst (rows dr)) = set (map fst (rows df))"
  proof -
    have "set (map fst (rows std)) \<union> set (map fst (rows dr)) = set (map fst ?R)"
      unfolding ix_std ix_dr by auto
    then show ?thesis
      by (simp only: index_renamed)
  qed
  have dj: "set (map fst (rows std)) \<inter> set (map fst (rows dr)) = {}"
    if "distinct (map fst (rows df))"
  proof -
    from that have d: "distinct (map fst ?R)"
      by (simp only: index_renamed)
    have "fst x \<noteq> fst y" if "x \<in> set ?R" "y \<in> set ?R" "\<not> ?m x" "?m y" for x y
    proof
      assume "fst x = fst y"
      with d that(1,2) have "x = y"
        by (meson distinct_map inj_onD)
      with that(3,4) show False
        by simp
    qed
    then show ?thesis
      unfolding ix_std ix_dr by auto
  qed
  have acc: "\<exists>s. cell_at r' ''external_id'' = Str s \<and> strip s \<noteq> []"
    if "(i, r') \<in> set (rows std)" for i r'
  proof -
    from in_rows_std [OF assms that] obtain j r where
      k: "(i, r) \<in> set (kept_rows conf df)"
      and r': "r' = std_row P (partner_code conf) (dob_column (kept_rows conf df)) j r"
      by blast
    from k have "\<not> mask_missing_id r"
      by (simp add: kept_rows_def)
    then show ?thesis
      by (simp add: r' std_row_cells has_id_iff)
  qed
  have drp: "isna (cell_at r' ''external_id'')
             \<or> (\<exists>s. cell_at r' ''external_id'' = Str s \<and> strip s = [])"
    if "(i, r') \<in> set (rows dr)" for i r'
  proof -
    from that obtain r where m: "(i, r) \<in> set (missing_rows conf df)"
      and r': "r' = set_cell ''partner_code'' (Str (partner_code conf)) r"
      by (auto simp: standardize_Inr(2) [OF assms])
    from m have "mask_missing_id r"
      by (simp add: missing_rows_def)
    then have "isna (cell_at r ''external_id'')
             \<or> (\<exists>s. cell_at r ''external_id'' = Str s \<and> strip s = [])"
      by (cases "cell_at r ''external_id''") (simp_all add: mask_missing_id_def)
    then show ?thesis
      by (simp add: r' cell_at_set_cell)
  qed
  show ?thesis
    using len un dj acc drp by blast
qed

theorem standardize_partition_witness:
  "length (rows std_acme) + length (rows dropped_acme) = length (rows raw_acme)
   \<and> set (map fst (rows std_acme)) = {0, 2}
   \<and> set (map fst (rows dropped_acme)) = {1}
   \<and> set (map fst (rows raw_acme)) = {0, 1, 2}
   \<and> map (\<lambda>(i, r). cell_at r ''external_id'') (rows std_acme) = [Str '' A1 '', Str ''B2'']
   \<and> map (\<lambda>(i, r). cell_at r ''external_id'') (rows dropped_acme) = [Str ''  '']"
  using standardize_partition [OF acme_run]
  by (simp add: std_acme_def dropped_acme_def raw_acme_def cell_at_def insert_commute)

text \<open>
  C2: a renamed row is accepted exactly when its external_id is a string that is not
  empty after stripping: the index labels of the accepted rows are those of the
  renamed rows with such an identifier, in order, the labels of the dropped rows are
  those of the others, and two rows with the same external_id cell are classified
  alike whatever their other cells hold.
\<close>

theorem classifier_iff:
  assumes "standardize_dataframe P df conf = Inr (std, dr)"
  shows "map fst (rows std) =
           map fst (filter (\<lambda>(i, r). \<exists>s. cell_at r ''external_id'' = Str s \<and> strip s \<noteq> [])
                           (rows (renamed conf df)))
       \<and> map fst (rows dr) =
           map fst (filter (\<lambda>(i, r). \<not> (\<exists>s. cell_at r ''external_id'' = Str s \<and> strip s \<noteq> []))
                           (rows (renamed conf df)))
       \<and> (\<forall>r r'. cell_at r ''external_id'' = cell_at r' ''external_id''
                   \<longrightarrow> mask_missing_id r = mask_missing_id r')"
proof -
  let ?has = "\<lambda>(i :: nat, r). \<exists>s. cell_at r ''external_id'' = Str s \<and> strip s \<noteq> []"
  have k: "kept_rows conf df = filter ?has (rows (renamed conf df))"
    unfolding kept_rows_def
    by (intro filter_cong refl) (simp add: split_def has_id_iff)
  have m: "missing_rows conf df = filter (\<lambda>x. \<not> ?has x) (rows (renamed conf df))"
    unfolding missing_rows_def
    by (intro filter_cong refl) (simp add: split_def has_id_iff [symmetric])
  have a: "map fst (rows std) = map fst (filter ?has (rows (renamed conf df)))"
    using index_std [OF assms] by (simp only: k)
  have b: "map fst (rows dr) = map fst (filter (\<lambda>x. \<not> ?has x) (rows (renamed conf df)))"
    using index_dropped [OF assms] by (simp only: m)
  have b': "map fst (rows dr) =
           map fst (filter (\<lambda>(i, r). \<not> (\<exists>s. cell_at r ''external_id'' = Str s \<and> strip s \<noteq> []))
                           (rows (renamed conf df)))"
    using b by (simp only: split_def)
  have c: "\<forall>r r'. cell_at r ''external_id'' = cell_at r' ''external_id''
                   \<longrightarrow> mask_missing_id r = mask_missing_id r'"
    by (simp add: mask_missing_id_def)
  show ?thesis
    using a b' c by (intro conjI)
qed

theorem classifier_iff_witness:
  "map fst (rows std_acme) = [0, 2]
   \<and> map fst (rows dropped_acme) = [1]
   \<and> map fst (filter (\<lambda>(i, r). \<exists>s. cell_at r ''external_id'' = Str s \<and> strip s \<noteq> [])
                     (rows (renamed conf_acme raw_acme))) = [0, 2]
   \<and> mask_missing_id [(''external_id'', Str ''B2''), (''dob'', Str ''not-a-date''),
                       (''phone'', Str ''12345'')]
     = mask_missing_id [(''external_id'', Str ''B2''), (''dob'', Str ''2020-01-15''),
                        (''phone'', Str ''555-123-4567'')]"
proof -
  have a: "map fst (rows std_acme) = [0, 2]" and b: "map fst (rows dropped_acme) = [1]"
    by (simp_all add: std_acme_def dropped_acme_def)
  have c: "cell_at [(''external_id'', Str ''B2''), (''dob'', Str ''not-a-date''),
                    (''phone'', Str ''12345'')] ''external_id''
         = cell_at [(''external_id'', Str ''B2''), (''dob'', Str ''2020-01-15''),
                    (''phone'', Str ''555-123-4567'')] ''external_id''"
    by (simp add: cell_at_def)
  note w = classifier_iff [OF acme_run]
  have d: "map fst (filter (\<lambda>(i, r). \<exists>s. cell_at r ''external_id'' = Str s \<and> strip s \<noteq> [])
                     (rows (renamed conf_acme raw_acme))) = [0, 2]"
    using w [THEN conjunct1] a by (simp only:)
  have e: "mask_missing_id [(''external_id'', Str ''B2''), (''dob'', Str ''not-a-date''),
                       (''phone'', Str ''12345'')]
     = mask_missing_id [(''external_id'', Str ''B2''), (''dob'', Str ''2020-01-15''),
                        (''phone'', Str ''555-123-4567'')]"
    using w [THEN conjunct2, THEN conjunct2, rule_format, OF c] .
  show ?thesis
    using a b d e by (intro conjI)
qed

section \<open>Results: dropped rows\<close>

text \<open>
  C3: every dropped row is its renamed input row with partner_code written on it:
  it has the index label of that row, every cell under a label other than
  partner_code is the cell of the renamed input row, in the same order, and the
  partner_code cell is the partner's code. No normalizer touches a dropped row.
\<close>

theorem dropped_rows_unmodified:
  assumes "standardize_dataframe P df conf = Inr (std, dr)"
  shows "length (rows dr) = length (missing_rows conf df)
       \<and> (\<forall>j < length (rows dr).
            fst (rows dr ! j) = fst (missing_rows conf df ! j)
          \<and> filter (\<lambda>(k, v). k \<noteq> ''partner_code'') (snd (rows dr ! j))
            = filter (\<lambda>(k, v). k \<noteq> ''partner_code'') (snd (missing_rows conf df ! j))
          \<and> (\<forall>c. c \<noteq> ''partner_code'' \<longrightarrow>
                cell_at (snd (rows dr ! j)) c = cell_at (snd (missing_rows conf df ! j)) c)
          \<and> cell_at (snd (rows dr ! j)) ''partner_code'' = Str (partner_code conf))"
proof -
  have len: "length (rows dr) = length (missing_rows conf df)"
    by (simp add: standardize_Inr(2) [OF assms])
  have row: "rows dr ! j =
             (fst (missing_rows conf df ! j),
              set_cell ''partner_code'' (Str (partner_code conf)) (snd (missing_rows conf df ! j)))"
    if "j < length (rows dr)" for j
    using that len by (simp add: standardize_Inr(2) [OF assms] split_def)
  show ?thesis
    using len by (simp add: row other_cells_set_cell cell_at_set_cell)
qed

theorem dropped_rows_unmodified_witness:
  "length (rows dropped_acme) = 1
   \<and> filter (\<lambda>(k, v). k \<noteq> ''partner_code'') (snd (rows dropped_acme ! 0))
     = [(''external_id'', Str ''  ''), (''first_name'', Str ''mary''),
        (''last_name'', Str ''major''), (''dob'', Str ''2020-01-15''),
        (''email'', Str ''M@X.ORG''), (''phone'', Str ''555 123 4567''), (''note'', NaN)]
   \<and> cell_at (snd (rows dropped_acme ! 0)) ''partner_code'' = Str ''ACME''"
proof -
  note w = dropped_rows_unmodified [OF acme_run]
  have l: "length (rows dropped_acme) = 1"
    using w [THEN conjunct1] by (simp add: acme_missing)
  then have j: "0 < length (rows dropped_acme)"
    by simp
  note r = w [THEN conjunct2, rule_format, OF j]
  have f: "filter (\<lambda>(k, v). k \<noteq> ''partner_code'') (snd (rows dropped_acme ! 0))
     = [(''external_id'', Str ''  ''), (''first_name'', Str ''mary''),
        (''last_name'', Str ''major''), (''dob'', Str ''2020-01-15''),
        (''email'', Str ''M@X.ORG''), (''phone'', Str ''555 123 4567''), (''note'', NaN)]"
    using r [THEN conjunct2, THEN conjunct1] by (simp add: acme_missing)
  have c: "cell_at (snd (rows dropped_acme ! 0)) ''partner_code'' = Str ''ACME''"
    using r [THEN conjunct2, THEN conjunct2, THEN conjunct2] by (simp add: conf_acme_def)
  show ?thesis
    using l f c by (intro conjI)
qed

section \<open>Results: read failures\<close>

text \<open>
  C4: a partner whose file cannot be read contributes no accepted and no dropped
  row, and the partners after it are processed. The code does this when the first
  \<^verbatim>\<open>read_csv\<close> raises anything but a TypeError (\<open>guarded_read_failure\<close>,
  \<open>guarded_read_failure_skipped\<close>, \<open>new_pandas_main\<close>). It does not when
  \<^verbatim>\<open>read_csv\<close> refuses \<^verbatim>\<open>on_bad_lines\<close> with a TypeError, as a pandas older than 1.3
  does: the file is read again inside the handler, and a failure of that second read
  leaves \<open>ingest_partner\<close> and \<open>main\<close>, so the partner after the failing one is
  never processed.
\<close>

theorem fallback_read_failure_propagates:
  "ingest_partner old_pandas_reader reads_nothing ''gone'' conf_gone = Inl OSError
   \<and> main old_pandas_reader reads_nothing [(''gone'', conf_gone), (''acme'', conf_acme)]
       = Inl OSError"
  by code_simp

section \<open>Results: format_phone\<close>

text \<open>
  C5: format_phone removes every non-digit character. When exactly ten digits
  remain, the result is those ten digits, in order, as three, three and four digits
  joined by two dashes; for a null, and for any other number of digits, the result is
  None. No digit is cut off and none is read differently.
\<close>

theorem format_phone_spec:
  "(isna v \<longrightarrow> format_phone v = PyNone)
   \<and> (\<not> isna v \<and> length (filter is_digit (py_str v)) \<noteq> 10 \<longrightarrow> format_phone v = PyNone)
   \<and> (\<not> isna v \<and> length (filter is_digit (py_str v)) = 10 \<longrightarrow>
        (\<exists>a b c. filter is_digit (py_str v) = a @ b @ c
                 \<and> length a = 3 \<and> length b = 3 \<and> length c = 4
                 \<and> format_phone v = Str (a @ ''-'' @ b @ ''-'' @ c)))"
proof -
  let ?d = "filter is_digit (py_str v)"
  have parts: "?d = take 3 ?d @ take 3 (drop 3 ?d) @ drop 6 ?d"
    by (simp only: split_ten)
  have ten: "\<exists>a b c. ?d = a @ b @ c \<and> length a = 3 \<and> length b = 3 \<and> length c = 4
               \<and> format_phone v = Str (a @ ''-'' @ b @ ''-'' @ c)"
    if "\<not> isna v" and "length ?d = 10"
  proof (intro exI conjI)
    show "?d = take 3 ?d @ take 3 (drop 3 ?d) @ drop 6 ?d"
      by (rule parts)
    show "length (take 3 ?d) = 3" "length (take 3 (drop 3 ?d)) = 3" "length (drop 6 ?d) = 4"
      using that by simp_all
    show "format_phone v = Str (take 3 ?d @ ''-'' @ take 3 (drop 3 ?d) @ ''-'' @ drop 6 ?d)"
      using that by (simp add: format_phone_def Let_def)
  qed
  have "isna v \<longrightarrow> format_phone v = PyNone"
    by (simp add: format_phone_def)
  moreover have "\<not> isna v \<and> length ?d \<noteq> 10 \<longrightarrow> format_phone v = PyNone"
    by (simp add: format_phone_def Let_def)
  ultimately show ?thesis
    using ten by blast
qed

theorem format_phone_spec_witness:
  "format_phone (Str ''(555) 123-4567'') = Str ''555-123-4567''
   \<and> format_phone (Str ''12345'') = PyNone
   \<and> format_phone (Str ''+1-555-123-4567'') = PyNone
   \<and> format_phone NaN = PyNone"
  using format_phone_spec [of "Str ''(555) 123-4567''"]
        format_phone_spec [of "Str ''12345''"]
        format_phone_spec [of "Str ''+1-555-123-4567''"]
        format_phone_spec [of NaN]
  by (simp add: format_phone_def is_digit_def)

section \<open>Results: names\<close>

text \<open>
  C6, as the specification states it, fails: an accepted first_name keeps its surrounding
  blanks, a hyphenated name is capitalised after the hyphen, and a blank or empty
  last_name stays a string instead of becoming absent.
\<close>

theorem names_not_trimmed_counterexample:
  "standardize_dataframe reads_nothing raw_names conf_direct
     = Inr (std_names, \<lparr>columns = expected_columns, rows = []\<rparr>)
   \<and> map (\<lambda>(i, r). cell_at r ''first_name'') (rows std_names)
     = [Str '' John '', Str ''Mary-Ann'']
   \<and> map (\<lambda>(i, r). cell_at r ''last_name'') (rows std_names) = [Str ''  '', Str '''']
   \<and> \<not> isna (Str ''  '') \<and> \<not> isna (Str '''')"
  by code_simp

text \<open>
  C6, amended: the first_name and last_name of an accepted record are not trimmed
  and are never the text "Nan". A NaN null becomes absent (pandas.NA). A cell that is
  a string of ASCII characters becomes absent when its text in title case is exactly
  "Nan", and otherwise becomes that text in title case: it has the length of the
  input, a letter that follows a letter is lower-cased, every other letter is
  upper-cased, and every character that is not a letter, blanks included, is kept,
  so that a blank or empty string stays the string it is.
\<close>

theorem names_title_cased:
  assumes "standardize_dataframe P df conf = Inr (std, dr)"
  shows "length (rows std) = length (kept_rows conf df)
       \<and> (\<forall>j < length (kept_rows conf df). \<forall>c \<in> {''first_name'', ''last_name''}.
            cell_at (snd (rows std ! j)) c \<noteq> Str ''Nan''
          \<and> (cell_at (snd (kept_rows conf df ! j)) c = NaN
               \<longrightarrow> cell_at (snd (rows std ! j)) c = NA)
          \<and> (\<forall>s. cell_at (snd (kept_rows conf df ! j)) c = Str s \<and> list_all is_ascii s \<longrightarrow>
                 cell_at (snd (rows std ! j)) c = (if title s = ''Nan'' then NA else Str (title s))
               \<and> length (title s) = length s
               \<and> (\<forall>i < length s.
                     title s ! i =
                       (if 0 < i \<and> is_cased (s ! (i - 1)) then to_lower (s ! i)
                        else to_upper (s ! i)))))"
proof -
  have nan: "title_name NaN = NA"
    by code_simp
  have str: "title_name (Str s) = (if title s = ''Nan'' then NA else Str (title s))" for s
    by (simp add: title_name_def Let_def)
  have len: "length (title s) = length s" for s
    by (simp add: title_def title_from_length)
  have nth: "title s ! i =
               (if 0 < i \<and> is_cased (s ! (i - 1)) then to_lower (s ! i) else to_upper (s ! i))"
    if "i < length s" for s i
    using title_from_nth [OF that, of False] by (simp add: title_def)
  show ?thesis
    using std_length [OF assms]
    by (simp add: std_nth [OF assms] std_row_cells title_name_not_Nan nan str len nth
        del: One_nat_def)
qed

theorem names_title_cased_witness:
  "cell_at (snd (kept_rows conf_acme raw_acme ! 0)) ''first_name'' = Str ''joHN''
   \<and> list_all is_ascii ''joHN''
   \<and> cell_at (snd (rows std_acme ! 0)) ''first_name'' = Str ''John''
   \<and> cell_at (snd (kept_rows conf_acme raw_acme ! 1)) ''first_name'' = NaN
   \<and> cell_at (snd (rows std_acme ! 1)) ''first_name'' = NA"
proof -
  note w = names_title_cased [OF acme_run, THEN conjunct2, rule_format]
  have j0: "0 < length (kept_rows conf_acme raw_acme)"
    and j1: "1 < length (kept_rows conf_acme raw_acme)"
    by (simp_all add: acme_kept)
  have m: "''first_name'' \<in> {''first_name'', ''last_name''}"
    by simp
  have c0: "cell_at (snd (kept_rows conf_acme raw_acme ! 0)) ''first_name'' = Str ''joHN''"
    and c1: "cell_at (snd (kept_rows conf_acme raw_acme ! 1)) ''first_name'' = NaN"
    by (simp_all add: acme_kept cell_at_def)
  have a: "list_all is_ascii ''joHN''"
    by code_simp
  have t: "title ''joHN'' = ''John''"
    by code_simp
  have "cell_at (snd (rows std_acme ! 0)) ''first_name'' = Str ''John''"
    using w [OF j0 m, THEN conjunct2, THEN conjunct2, rule_format, OF conjI [OF c0 a],
        THEN conjunct1] t
    by simp
  moreover have "cell_at (snd (rows std_acme ! 1)) ''first_name'' = NA"
    using w [OF j1 m, THEN conjunct2, THEN conjunct1, rule_format, OF c1] .
  ultimately show ?thesis
    using c0 c1 a by (intro conjI)
qed

section \<open>Results: dates\<close>

text \<open>
  C7, as the specification states it, fails: the text 01/15/2020 is a calendar date,
  and is written as 2020-01-15 where it is the first of its column, but it is
  absent from the accepted record where the column starts in the ISO notation
  (\<open>example_dates\<close> lists what pandas 2 reads in these columns).
\<close>

theorem dob_other_notation_counterexample:
  "standardize_dataframe example_dates raw_mixed conf_direct
     = Inr (std_mixed, \<lparr>columns = expected_columns, rows = []\<rparr>)
   \<and> map (\<lambda>(i, r). cell_at r ''dob'') (rows raw_mixed)
     = [Str ''2020-01-15'', Str ''01/15/2020'']
   \<and> map (\<lambda>(i, r). cell_at r ''dob'') (rows std_mixed) = [Str ''2020-01-15'', NaN]
   \<and> standardize_dataframe example_dates raw_acme conf_acme = Inr (std_acme, dropped_acme)
   \<and> cell_at (snd (kept_rows conf_acme raw_acme ! 0)) ''dob'' = Str ''01/15/2020''
   \<and> cell_at (snd (rows std_acme ! 0)) ''dob'' = Str ''2020-01-15''"
  by code_simp

text \<open>
  C7, amended: the dob of an accepted record is absent (NaN) when the input cell is
  a null or when \<^verbatim>\<open>pd.to_datetime\<close>, applied to the dob column of the accepted rows,
  reads no date at its position; otherwise it is the date read there, written as
  YYYY-MM-DD: ten characters, with the year, the month and the day of that date in
  decimal (for the years 1677 to 2262 that a pandas timestamp holds). Whatever the
  parser reads or fails to read, as dates and NaT, the function returns whenever the
  labels do not make it raise.
\<close>

theorem dob_parsed_or_absent:
  "(\<not> raises_on_labels (renamed conf df)
      \<longrightarrow> (\<exists>res. standardize_dataframe P df conf = Inr res))
   \<and> (standardize_dataframe P df conf = Inr (std, dr) \<longrightarrow>
        length (rows std) = length (kept_rows conf df)
        \<and> (\<forall>j < length (kept_rows conf df).
              (isna (cell_at (snd (kept_rows conf df ! j)) ''dob'')
                 \<longrightarrow> cell_at (snd (rows std ! j)) ''dob'' = NaN)
            \<and> (\<not> isna (cell_at (snd (kept_rows conf df ! j)) ''dob'')
                 \<and> P (dob_column (kept_rows conf df)) j = None
                 \<longrightarrow> cell_at (snd (rows std ! j)) ''dob'' = NaN)
            \<and> (\<forall>t. \<not> isna (cell_at (snd (kept_rows conf df ! j)) ''dob'')
                     \<and> P (dob_column (kept_rows conf df)) j = Some t
                 \<longrightarrow> cell_at (snd (rows std ! j)) ''dob'' = Str (strftime t)
                     \<and> is_iso_date (strftime t)
                     \<and> (in_timestamp_range t \<longrightarrow>
                          decimal (take 4 (strftime t)) = year t
                          \<and> decimal (take 2 (drop 5 (strftime t))) = month t
                          \<and> decimal (drop 8 (strftime t)) = day t))))"
proof (intro conjI impI)
  assume "\<not> raises_on_labels (renamed conf df)"
  then show "\<exists>res. standardize_dataframe P df conf = Inr res"
    using standardize_returns_iff [of P df conf] by blast
next
  assume run: "standardize_dataframe P df conf = Inr (std, dr)"
  show "length (rows std) = length (kept_rows conf df)"
    by (rule std_length [OF run])
  show "\<forall>j < length (kept_rows conf df).
              (isna (cell_at (snd (kept_rows conf df ! j)) ''dob'')
                 \<longrightarrow> cell_at (snd (rows std ! j)) ''dob'' = NaN)
            \<and> (\<not> isna (cell_at (snd (kept_rows conf df ! j)) ''dob'')
                 \<and> P (dob_column (kept_rows conf df)) j = None
                 \<longrightarrow> cell_at (snd (rows std ! j)) ''dob'' = NaN)
            \<and> (\<forall>t. \<not> isna (cell_at (snd (kept_rows conf df ! j)) ''dob'')
                     \<and> P (dob_column (kept_rows conf df)) j = Some t
                 \<longrightarrow> cell_at (snd (rows std ! j)) ''dob'' = Str (strftime t)
                     \<and> is_iso_date (strftime t)
                     \<and> (in_timestamp_range t \<longrightarrow>
                          decimal (take 4 (strftime t)) = year t
                          \<and> decimal (take 2 (drop 5 (strftime t))) = month t
                          \<and> decimal (drop 8 (strftime t)) = day t))"
    by (simp add: std_nth [OF run] std_row_cells dob_value_def is_iso_date_strftime
        decimal_strftime)
qed

theorem dob_parsed_or_absent_witness:
  "cell_at (snd (kept_rows conf_acme raw_acme ! 0)) ''dob'' = Str ''01/15/2020''
   \<and> cell_at (snd (rows std_acme ! 0)) ''dob'' = Str ''2020-01-15''
   \<and> is_iso_date ''2020-01-15''
   \<and> decimal ''2020'' = 2020 \<and> decimal ''01'' = 1 \<and> decimal ''15'' = 15
   \<and> cell_at (snd (kept_rows conf_acme raw_acme ! 1)) ''dob'' = Str ''not-a-date''
   \<and> cell_at (snd (rows std_acme ! 1)) ''dob'' = NaN"
proof -
  let ?t = "\<lparr>year = 2020, month = 1, day = 15\<rparr>"
  note w = dob_parsed_or_absent [of conf_acme raw_acme example_dates std_acme dropped_acme,
      THEN conjunct2, rule_format, OF acme_run, THEN conjunct2, rule_format]
  have j0: "0 < length (kept_rows conf_acme raw_acme)"
    and j1: "1 < length (kept_rows conf_acme raw_acme)"
    by (simp_all add: acme_kept)
  have c0: "cell_at (snd (kept_rows conf_acme raw_acme ! 0)) ''dob'' = Str ''01/15/2020''"
    and c1: "cell_at (snd (kept_rows conf_acme raw_acme ! 1)) ''dob'' = Str ''not-a-date''"
    by (simp_all add: acme_kept cell_at_def)
  have p0: "example_dates (dob_column (kept_rows conf_acme raw_acme)) 0 = Some ?t"
    and p1: "example_dates (dob_column (kept_rows conf_acme raw_acme)) 1 = None"
    by (simp_all add: acme_kept dob_column_def cell_at_def example_dates_def)
  have s: "strftime ?t = ''2020-01-15''"
    by (simp add: strftime_def digit_char_def)
  have r: "in_timestamp_range ?t"
    by (simp add: in_timestamp_range_def)
  have n0: "\<not> isna (cell_at (snd (kept_rows conf_acme raw_acme ! 0)) ''dob'')"
    unfolding c0 by simp
  have n1: "\<not> isna (cell_at (snd (kept_rows conf_acme raw_acme ! 1)) ''dob'')"
    unfolding c1 by simp
  note d = w [OF j0, THEN conjunct2, THEN conjunct2, rule_format, OF conjI [OF n0 p0]]
  have a: "cell_at (snd (rows std_acme ! 0)) ''dob'' = Str ''2020-01-15''"
    using d [THEN conjunct1] by (simp only: s)
  have b: "is_iso_date ''2020-01-15''"
    using d [THEN conjunct2, THEN conjunct1] by (simp only: s)
  have k: "take 4 (strftime ?t) = ''2020''" "take 2 (drop 5 (strftime ?t)) = ''01''"
    "drop 8 (strftime ?t) = ''15''"
    by (simp_all add: strftime_def digit_char_def)
  have "decimal ''2020'' = year ?t \<and> decimal ''01'' = month ?t \<and> decimal ''15'' = day ?t"
    using d [THEN conjunct2, THEN conjunct2, rule_format, OF r] unfolding k .
  then have e: "decimal ''2020'' = 2020 \<and> decimal ''01'' = 1 \<and> decimal ''15'' = 15"
    by simp
  have f: "cell_at (snd (rows std_acme ! 1)) ''dob'' = NaN"
    using w [OF j1, THEN conjunct2, THEN conjunct1, rule_format, OF conjI [OF n1 p1]] .
  show ?thesis
    using a b c0 c1 e f by (intro conjI) simp_all
qed

section \<open>Results: standardizing twice\<close>

text \<open>
  C8: standardizing a set of accepted records again leaves every value as it is and
  accepts every row again. On the code this fails where a name or an email is
  absent: the first run writes pandas.NA there, whose text under
  \<^verbatim>\<open>astype(str)\<close> is "<NA>" and not the "nan" that \<^verbatim>\<open>replace("Nan", pd.NA)\<close> and
  \<^verbatim>\<open>replace("nan", pd.NA)\<close> look for, so the second run writes the strings "<Na>"
  and "<na>". Where names and email are present the second run changes nothing
  (\<open>restandardize_fixed\<close>, \<open>full_rerun\<close>).
\<close>

theorem restandardize_absent_names:
  "standardize_dataframe example_dates raw_acme conf_acme = Inr (std_acme, dropped_acme)
   \<and> standardize_dataframe example_dates std_acme conf_acme
       = Inr (restd_acme, \<lparr>columns = cols, rows = []\<rparr>)
   \<and> cell_at (snd (rows std_acme ! 0)) ''last_name'' = NA
   \<and> cell_at (snd (rows restd_acme ! 0)) ''last_name'' = Str ''<Na>''
   \<and> cell_at (snd (rows std_acme ! 0)) ''email'' = NA
   \<and> cell_at (snd (rows restd_acme ! 0)) ''email'' = Str ''<na>''
   \<and> restd_acme \<noteq> std_acme"
  by code_simp

section \<open>Results: the identifier of an accepted record\<close>

text \<open>
  C9: the external_id of an accepted record is the external_id cell of its renamed
  input row, unchanged: it is neither stripped nor re-cased. An identifier with
  surrounding blanks is accepted and written with them.
\<close>

theorem external_id_verbatim:
  assumes "standardize_dataframe P df conf = Inr (std, dr)"
  shows "map (\<lambda>(i, r). (i, cell_at r ''external_id'')) (rows std)
         = map (\<lambda>(i, r). (i, cell_at r ''external_id'')) (kept_rows conf df)"
proof (rule nth_equalityI)
  show "length (map (\<lambda>(i, r). (i, cell_at r ''external_id'')) (rows std))
        = length (map (\<lambda>(i, r). (i, cell_at r ''external_id'')) (kept_rows conf df))"
    by (simp add: std_length [OF assms])
next
  fix j
  assume "j < length (map (\<lambda>(i, r). (i, cell_at r ''external_id'')) (rows std))"
  then have j: "j < length (kept_rows conf df)"
    by (simp add: std_length [OF assms])
  then show "map (\<lambda>(i, r). (i, cell_at r ''external_id'')) (rows std) ! j
        = map (\<lambda>(i, r). (i, cell_at r ''external_id'')) (kept_rows conf df) ! j"
    by (simp add: std_length [OF assms] std_nth [OF assms j] std_row_cells split_def)
qed

theorem external_id_verbatim_witness:
  "map (\<lambda>(i, r). (i, cell_at r ''external_id'')) (kept_rows conf_acme raw_acme)
     = [(0, Str '' A1 ''), (2, Str ''B2'')]"
  using external_id_verbatim [OF acme_run]
  by (simp add: std_acme_def cell_at_def)

section \<open>Results: the texts Nan and nan\<close>

text \<open>
  C10: in an accepted record, a first_name or last_name whose text in title case is
  exactly "Nan", and an email whose text in lower case is exactly "nan", is absent
  (pandas.NA), also when the input cell was a string and not a null.
\<close>

theorem nan_text_becomes_absent:
  assumes "standardize_dataframe P df conf = Inr (std, dr)"
  shows "length (rows std) = length (kept_rows conf df)
       \<and> (\<forall>j < length (kept_rows conf df).
            (title (py_str (cell_at (snd (kept_rows conf df ! j)) ''first_name'')) = ''Nan''
               \<longrightarrow> cell_at (snd (rows std ! j)) ''first_name'' = NA)
          \<and> (title (py_str (cell_at (snd (kept_rows conf df ! j)) ''last_name'')) = ''Nan''
               \<longrightarrow> cell_at (snd (rows std ! j)) ''last_name'' = NA)
          \<and> (lower (py_str (cell_at (snd (kept_rows conf df ! j)) ''email'')) = ''nan''
               \<longrightarrow> cell_at (snd (rows std ! j)) ''email'' = NA))"
  using std_length [OF assms]
  by (simp add: std_nth [OF assms] std_row_cells title_name_def lower_email_def)

theorem nan_text_becomes_absent_witness:
  "cell_at (snd (kept_rows conf_acme raw_acme ! 0)) ''last_name'' = Str ''NAN''
   \<and> cell_at (snd (rows std_acme ! 0)) ''last_name'' = NA
   \<and> cell_at (snd (kept_rows conf_acme raw_acme ! 0)) ''email'' = Str ''NaN''
   \<and> cell_at (snd (rows std_acme ! 0)) ''email'' = NA
   \<and> cell_at (snd (kept_rows conf_acme raw_acme ! 1)) ''first_name'' = NaN
   \<and> cell_at (snd (rows std_acme ! 1)) ''first_name'' = NA"
proof -
  have t: "title (py_str (Str ''NAN'')) = ''Nan''" "lower (py_str (Str ''NaN'')) = ''nan''"
    "title (py_str NaN) = ''Nan''"
    by code_simp+
  have c: "cell_at (snd (kept_rows conf_acme raw_acme ! 0)) ''last_name'' = Str ''NAN''"
    "cell_at (snd (kept_rows conf_acme raw_acme ! 0)) ''email'' = Str ''NaN''"
    "cell_at (snd (kept_rows conf_acme raw_acme ! 1)) ''first_name'' = NaN"
    by (simp_all add: acme_kept cell_at_def)
  note w = nan_text_becomes_absent [OF acme_run, THEN conjunct2, rule_format]
  have j0: "0 < length (kept_rows conf_acme raw_acme)" and j1: "1 < length (kept_rows conf_acme raw_acme)"
    by (simp_all add: acme_kept)
  have "cell_at (snd (rows std_acme ! 0)) ''last_name'' = NA"
    using w [OF j0, THEN conjunct2, THEN conjunct1] c(1) t(1) by simp
  moreover have "cell_at (snd (rows std_acme ! 0)) ''email'' = NA"
    using w [OF j0, THEN conjunct2, THEN conjunct2] c(2) t(2) by simp
  moreover have "cell_at (snd (rows std_acme ! 1)) ''first_name'' = NA"
    using w [OF j1, THEN conjunct1] c(3) t(3) by simp
  ultimately show ?thesis
    using c by (intro conjI)
qed

end
